theory Spec2Isabelle
  imports Main "HOL-Library.Word"
begin

section \<open>Primitive types of the ShadowLedger contract\<close>

text \<open>
  The contract is written in Solidity 0.8: an \<open>address\<close> is a 160-bit word, and a
  \<open>uint256\<close> is modelled as a natural number whose checked arithmetic is written out
  (an increment of \<open>2^256 - 1\<close> panics and reverts the call; nothing ever wraps).
  Encrypted amounts are \<open>euint128\<close>: their clear values are 128-bit words, whose
  addition and subtraction wrap.

  The names are those of \<open>ShadowLedger.sol\<close>, without the leading underscore of its
  private members; the fields \<open>id\<close>, \<open>exists\<close> and \<open>timestamp\<close>, which several structs
  share, carry the struct as a prefix. Events are not modelled: they are write-only logs
  that no function of the contract reads. Gas is not modelled, so a call never fails for
  lack of it. Of memory only the check that Solidity makes when it creates an array is
  modelled: \<open>new uint256[](n)\<close> panics (code 0x41) when \<open>n\<close> exceeds \<open>2^64 - 1\<close>.
  \<open>Panic\<close> is the panic of checked arithmetic (code 0x11), \<open>AllocationPanic\<close> the one
  of an array that is too large.
\<close>

type_synonym address = "160 word"

definition max_uint256 :: nat where
  "max_uint256 = 2 ^ 256 - 1"

definition max_memory_array :: nat where
  "max_memory_array = 2 ^ 64 - 1"

datatype RecordType = Income | Expense

datatype error =
    OnlySystemAdmin | OnlyDepartmentAdmin | OnlyDepartmentMember | OnlyAuditor
  | InvalidDepartment | InvalidRecord
  | EmptyName | InvalidAdmin | InvalidMember | AlreadyMember
  | NotAMember | CannotRemoveAdmin | EmptyDescription | AccessDenied
  | InvalidAuditor | AlreadyAuditor | NotAnAuditor
  | InvalidProof | NotAuthorized | Panic | AllocationPanic

section \<open>The encryption service\<close>

text \<open>
  Modelled from the spec: the FHE library the contract imports
  (\<open>@fhevm/solidity/lib/FHE.sol\<close>, with the types \<open>euint128\<close> and
  \<open>externalEuint128\<close>) is not part of the repository; section 6 of the specification
  gives its interface: \<open>fromExternal\<close>, \<open>asZero\<close>, \<open>add\<close>, \<open>sub\<close>, \<open>grant\<close>,
  \<open>grantToSelf\<close> and \<open>userDecrypt\<close>, and section 4.4 fixes its arithmetic as that of
  a fixed-width unsigned integer, which wraps.

  A handle is an opaque name for a ciphertext. It is modelled symbolically: a handle is
  either uninitialised (the zero value of an unset storage slot), an externally supplied
  ciphertext (named by its identifier), a trivial encryption of a constant, or the result
  of a homomorphic operation on two handles. The contract never inspects a handle; only
  \<open>cleartext\<close>, which stands for decryption by the service, reads it, given the
  clear values \<open>key\<close> of the external ciphertexts.
\<close>

datatype euint128 =
    NoHandle
  | Ciphertext nat
  | TrivialEncrypt "128 word"
  | FheAdd euint128 euint128
  | FheSub euint128 euint128

type_synonym externalEuint128 = nat

text \<open>
  Modelled from the spec: an inclusion proof is the list of ciphertext identifiers it
  attests; it verifies for a ciphertext iff it lists it.
\<close>

type_synonym inputProof = "nat list"

text \<open>
  Modelled from the spec: the clear value behind a handle. The sum and the difference are
  those of 128-bit words.
\<close>

fun cleartext :: "(nat \<Rightarrow> 128 word) \<Rightarrow> euint128 \<Rightarrow> 128 word" where
  "cleartext key NoHandle = 0"
| "cleartext key (Ciphertext n) = key n"
| "cleartext key (TrivialEncrypt w) = w"
| "cleartext key (FheAdd a b) = cleartext key a + cleartext key b"
| "cleartext key (FheSub a b) = cleartext key a - cleartext key b"

text \<open>
  Modelled from the spec: \<open>fromExternal\<close> yields the handle of the ciphertext or fails
  with an invalid proof; \<open>asEuint128\<close> (\<open>asZero\<close> for the constant 0), \<open>add\<close> and
  \<open>sub\<close> yield new handles.
\<close>

definition FHE_fromExternal :: "externalEuint128 \<Rightarrow> inputProof \<Rightarrow> error + euint128" where
  "FHE_fromExternal input proof =
     (if input \<in> set proof then Inr (Ciphertext input) else Inl InvalidProof)"

definition FHE_asEuint128 :: "128 word \<Rightarrow> euint128" where
  "FHE_asEuint128 w = TrivialEncrypt w"

definition FHE_add :: "euint128 \<Rightarrow> euint128 \<Rightarrow> euint128" where
  "FHE_add a b = FheAdd a b"

definition FHE_sub :: "euint128 \<Rightarrow> euint128 \<Rightarrow> euint128" where
  "FHE_sub a b = FheSub a b"

section \<open>Storage of the contract\<close>

record Record =
  rec_id :: nat
  recordType :: RecordType
  amount :: euint128
  departmentId :: nat
  projectId :: nat
  description :: string
  timestamp :: nat
  creator :: address
  rec_exists :: bool

record Department =
  dept_id :: nat
  name :: string
  members :: "address list"
  admin :: address
  createdAt :: nat
  dept_exists :: bool

record Calculation =
  calc_id :: nat
  calculationType :: RecordType
  result :: euint128
  calc_departmentIds :: "nat list"
  calc_projectIds :: "nat list"
  calc_timestamp :: nat
  calc_exists :: bool

text \<open>
  A Solidity mapping is total: a key never written reads as the zero value of the
  value type. The grants of the encryption service (the pairs of a handle and a
  principal allowed to decrypt it) are kept with the contract's storage, since the
  contract's calls are what changes them.
\<close>

definition zero_Record :: Record where
  "zero_Record = \<lparr> rec_id = 0, recordType = Income, amount = NoHandle, departmentId = 0,
     projectId = 0, description = [], timestamp = 0, creator = 0, rec_exists = False \<rparr>"

definition zero_Department :: Department where
  "zero_Department = \<lparr> dept_id = 0, name = [], members = [], admin = 0, createdAt = 0,
     dept_exists = False \<rparr>"

definition zero_Calculation :: Calculation where
  "zero_Calculation = \<lparr> calc_id = 0, calculationType = Income, result = NoHandle,
     calc_departmentIds = [], calc_projectIds = [], calc_timestamp = 0, calc_exists = False \<rparr>"

record ShadowLedger =
  recordCounter :: nat
  departmentCounter :: nat
  calculationCounter :: nat
  records :: "nat \<Rightarrow> Record"
  departments :: "nat \<Rightarrow> Department"
  calculations :: "nat \<Rightarrow> Calculation"
  userDepartments :: "address \<Rightarrow> nat list"
  departmentAdmins :: "nat \<Rightarrow> address"
  auditors :: "address \<Rightarrow> bool"
  systemAdmin :: address
  acl :: "(euint128 \<times> address) set"

text \<open>
  What the transaction substrate supplies to a call: the caller, the address of the
  contract itself and the time of the block.
\<close>

record env =
  msg_sender :: address
  address_this :: address
  block_timestamp :: nat

text \<open>
  Modelled from the spec: \<open>grant\<close> adds a pair to the grants and is idempotent,
  \<open>grantToSelf\<close> grants to the contract, and \<open>userDecrypt\<close> yields the clear value
  to a principal that holds a grant and fails otherwise.
\<close>

definition FHE_allow :: "euint128 \<Rightarrow> address \<Rightarrow> ShadowLedger \<Rightarrow> ShadowLedger" where
  "FHE_allow h p s = s\<lparr> acl := insert (h, p) (acl s) \<rparr>"

definition FHE_allowThis :: "env \<Rightarrow> euint128 \<Rightarrow> ShadowLedger \<Rightarrow> ShadowLedger" where
  "FHE_allowThis e h s = FHE_allow h (address_this e) s"

definition userDecrypt ::
  "(nat \<Rightarrow> 128 word) \<Rightarrow> ShadowLedger \<Rightarrow> address \<Rightarrow> euint128 \<Rightarrow> error + 128 word" where
  "userDecrypt key s p h =
     (if (h, p) \<in> acl s then Inr (cleartext key h) else Inl NotAuthorized)"

section \<open>Construction and the membership predicate\<close>

text \<open>
  The constructor makes the deployer the system administrator and creates the department
  ``System'' with id 1, an empty member list and the deployer as administrator. It does
  not touch the reverse index \<open>userDepartments\<close>. In \<open>isDepartmentMember\<close> the loop
  over the member array is the membership test of the list.
\<close>

definition constructor :: "env \<Rightarrow> ShadowLedger" where
  "constructor e =
     \<lparr> recordCounter = 0,
       departmentCounter = 1,
       calculationCounter = 0,
       records = (\<lambda>_. zero_Record),
       departments = (\<lambda>_. zero_Department)
         (1 := \<lparr> dept_id = 1, name = ''System'', members = [], admin = msg_sender e,
                 createdAt = block_timestamp e, dept_exists = True \<rparr>),
       calculations = (\<lambda>_. zero_Calculation),
       userDepartments = (\<lambda>_. []),
       departmentAdmins = (\<lambda>_. 0)(1 := msg_sender e),
       auditors = (\<lambda>_. False),
       systemAdmin = msg_sender e,
       acl = {} \<rparr>"

definition isDepartmentMember :: "address \<Rightarrow> nat \<Rightarrow> ShadowLedger \<Rightarrow> bool" where
  "isDepartmentMember user deptId s =
     (if \<not> dept_exists (departments s deptId) then False
      else if admin (departments s deptId) = user then True
      else user \<in> set (members (departments s deptId)))"

section \<open>Department registry\<close>

text \<open>
  A state-changing call returns its result together with the working storage at the
  point where it stopped. After \<open>Inl\<close> (a revert) the substrate discards that working
  storage; \<open>transact\<close> below does so. The modifiers of a function run in the order in
  which its header lists them, before its body; each \<open>require\<close> is one test of the
  chain of tests a definition starts with.
\<close>

type_synonym 'a outcome = "(error + 'a) \<times> ShadowLedger"

definition createDepartment :: "env \<Rightarrow> string \<Rightarrow> address \<Rightarrow> ShadowLedger \<Rightarrow> nat outcome" where
  "createDepartment e nm adm s =
     (if msg_sender e \<noteq> systemAdmin s then (Inl OnlySystemAdmin, s)
      else if nm = [] then (Inl EmptyName, s)
      else if adm = 0 then (Inl InvalidAdmin, s)
      else if departmentCounter s = max_uint256 then (Inl Panic, s)
      else
        let s1 = s\<lparr> departmentCounter := departmentCounter s + 1 \<rparr>;
            deptId = departmentCounter s1;
            s2 = s1\<lparr> departments := (departments s1)
                   (deptId := \<lparr> dept_id = deptId, name = nm, members = [adm], admin = adm,
                                createdAt = block_timestamp e, dept_exists = True \<rparr>) \<rparr>;
            s3 = s2\<lparr> departmentAdmins := (departmentAdmins s2)(deptId := adm) \<rparr>;
            s4 = s3\<lparr> userDepartments := (userDepartments s3)
                   (adm := userDepartments s3 adm @ [deptId]) \<rparr>
        in (Inr deptId, s4))"

definition addDepartmentMember :: "env \<Rightarrow> nat \<Rightarrow> address \<Rightarrow> ShadowLedger \<Rightarrow> unit outcome" where
  "addDepartmentMember e deptId member s =
     (if departmentAdmins s deptId \<noteq> msg_sender e then (Inl OnlyDepartmentAdmin, s)
      else if \<not> dept_exists (departments s deptId) then (Inl InvalidDepartment, s)
      else if member = 0 then (Inl InvalidMember, s)
      else if isDepartmentMember member deptId s then (Inl AlreadyMember, s)
      else
        let d = departments s deptId;
            s1 = s\<lparr> departments := (departments s)
                   (deptId := d\<lparr> members := members d @ [member] \<rparr>) \<rparr>;
            s2 = s1\<lparr> userDepartments := (userDepartments s1)
                   (member := userDepartments s1 member @ [deptId]) \<rparr>
        in (Inr (), s2))"

text \<open>
  The removal loop of \<open>removeDepartmentMember\<close>, used for both arrays: at the first index
  holding \<open>x\<close> the last element is copied there and the array is popped. The index never
  overflows, since it stays below the array's length.
\<close>

function swap_pop :: "nat \<Rightarrow> 'a \<Rightarrow> 'a list \<Rightarrow> 'a list" where
  "swap_pop i x xs =
     (if i < length xs
      then (if xs ! i = x then butlast (xs[i := xs ! (length xs - 1)])
            else swap_pop (i + 1) x xs)
      else xs)"
  by pat_completeness auto
termination
  by (relation "measure (\<lambda>(i, x, xs). length xs - i)") auto

definition removeDepartmentMember :: "env \<Rightarrow> nat \<Rightarrow> address \<Rightarrow> ShadowLedger \<Rightarrow> unit outcome" where
  "removeDepartmentMember e deptId member s =
     (if departmentAdmins s deptId \<noteq> msg_sender e then (Inl OnlyDepartmentAdmin, s)
      else if \<not> dept_exists (departments s deptId) then (Inl InvalidDepartment, s)
      else if \<not> isDepartmentMember member deptId s then (Inl NotAMember, s)
      else if member = admin (departments s deptId) then (Inl CannotRemoveAdmin, s)
      else
        let d = departments s deptId;
            s1 = s\<lparr> departments := (departments s)
                   (deptId := d\<lparr> members := swap_pop 0 member (members d) \<rparr>) \<rparr>;
            s2 = s1\<lparr> userDepartments := (userDepartments s1)
                   (member := swap_pop 0 deptId (userDepartments s1 member)) \<rparr>
        in (Inr (), s2))"

definition getDepartment :: "nat \<Rightarrow> ShadowLedger \<Rightarrow> error + Department" where
  "getDepartment deptId s =
     (if \<not> dept_exists (departments s deptId) then Inl InvalidDepartment
      else Inr (departments s deptId))"

definition getUserDepartments :: "address \<Rightarrow> ShadowLedger \<Rightarrow> nat list" where
  "getUserDepartments user s = userDepartments s user"

section \<open>Record store\<close>

definition createRecord ::
  "env \<Rightarrow> RecordType \<Rightarrow> externalEuint128 \<Rightarrow> inputProof \<Rightarrow> nat \<Rightarrow> nat \<Rightarrow> string
     \<Rightarrow> ShadowLedger \<Rightarrow> nat outcome" where
  "createRecord e rt encryptedAmount proof deptId projId descr s =
     (if \<not> isDepartmentMember (msg_sender e) deptId s then (Inl OnlyDepartmentMember, s)
      else if \<not> dept_exists (departments s deptId) then (Inl InvalidDepartment, s)
      else if descr = [] then (Inl EmptyDescription, s)
      else case FHE_fromExternal encryptedAmount proof of
        Inl err \<Rightarrow> (Inl err, s)
      | Inr amt \<Rightarrow>
          if recordCounter s = max_uint256 then (Inl Panic, s)
          else
            let s1 = s\<lparr> recordCounter := recordCounter s + 1 \<rparr>;
                recordId = recordCounter s1;
                s2 = s1\<lparr> records := (records s1)
                       (recordId := \<lparr> rec_id = recordId, recordType = rt, amount = amt,
                          departmentId = deptId, projectId = projId, description = descr,
                          timestamp = block_timestamp e, creator = msg_sender e,
                          rec_exists = True \<rparr>) \<rparr>;
                s3 = FHE_allowThis e amt s2;
                s4 = FHE_allow amt (msg_sender e) s3;
                s5 = (if departmentAdmins s4 deptId = msg_sender e
                      then FHE_allow amt (msg_sender e) s4 else s4)
            in (Inr recordId, s5))"

definition getRecord :: "env \<Rightarrow> nat \<Rightarrow> ShadowLedger \<Rightarrow> error + Record" where
  "getRecord e recordId s =
     (if \<not> rec_exists (records s recordId) then Inl InvalidRecord
      else
        let r = records s recordId in
        if \<not> (isDepartmentMember (msg_sender e) (departmentId r) s \<or> auditors s (msg_sender e))
        then Inl AccessDenied
        else Inr r)"

text \<open>
  The scan of \<open>getDepartmentRecords\<close>. The source fills the first \<open>count\<close> cells of an
  array of \<open>limit\<close> cells and then copies them out; the model keeps those cells as the
  list \<open>recordIds\<close>, so \<open>count\<close> is its length. The loop index is a \<open>uint256\<close>: its
  increment after the body (also after \<open>continue\<close>) panics at \<open>2^256 - 1\<close>.

  Before the scan the body creates that array, \<open>new uint256[](limit)\<close>, which panics
  when \<open>limit\<close> exceeds \<open>2^64 - 1\<close>; the modifiers have run by then. The array of
  \<open>count\<close> cells created after the scan is never too large, since \<open>count\<close> is at most
  \<open>limit\<close>. \<open>getAllRecords\<close> does the same.
\<close>

function getDepartmentRecords_loop ::
  "ShadowLedger \<Rightarrow> nat \<Rightarrow> nat \<Rightarrow> nat \<Rightarrow> nat \<Rightarrow> nat \<Rightarrow> nat list \<Rightarrow> error + nat list" where
  "getDepartmentRecords_loop s deptId offset limit i skipped recordIds =
     (if i \<le> recordCounter s \<and> length recordIds < limit
      then
        (if rec_exists (records s i) \<and> departmentId (records s i) = deptId
         then
           (if skipped < offset
            then (if i = max_uint256 then Inl Panic
                  else getDepartmentRecords_loop s deptId offset limit (i + 1) (skipped + 1) recordIds)
            else (if i = max_uint256 then Inl Panic
                  else getDepartmentRecords_loop s deptId offset limit (i + 1) skipped (recordIds @ [i])))
         else (if i = max_uint256 then Inl Panic
               else getDepartmentRecords_loop s deptId offset limit (i + 1) skipped recordIds))
      else Inr recordIds)"
  by pat_completeness auto
termination
  by (relation "measure (\<lambda>(s, deptId, offset, limit, i, skipped, recordIds). Suc (recordCounter s) - i)") auto


function getAllRecords_loop ::
  "ShadowLedger \<Rightarrow> nat \<Rightarrow> nat \<Rightarrow> nat \<Rightarrow> nat \<Rightarrow> nat list \<Rightarrow> error + nat list" where
  "getAllRecords_loop s offset limit i skipped recordIds =
     (if i \<le> recordCounter s \<and> length recordIds < limit
      then
        (if rec_exists (records s i)
         then
           (if skipped < offset
            then (if i = max_uint256 then Inl Panic
                  else getAllRecords_loop s offset limit (i + 1) (skipped + 1) recordIds)
            else (if i = max_uint256 then Inl Panic
                  else getAllRecords_loop s offset limit (i + 1) skipped (recordIds @ [i])))
         else (if i = max_uint256 then Inl Panic
               else getAllRecords_loop s offset limit (i + 1) skipped recordIds))
      else Inr recordIds)"
  by pat_completeness auto
termination
  by (relation "measure (\<lambda>(s, offset, limit, i, skipped, recordIds). Suc (recordCounter s) - i)") auto

definition getAllRecords :: "env \<Rightarrow> nat \<Rightarrow> nat \<Rightarrow> ShadowLedger \<Rightarrow> error + nat list" where
  "getAllRecords e offset limit s =
     (if \<not> auditors s (msg_sender e) then Inl OnlyAuditor
      else if max_memory_array < limit then Inl AllocationPanic
      else getAllRecords_loop s offset limit 1 0 [])"

definition getRecordCount :: "ShadowLedger \<Rightarrow> nat" where
  "getRecordCount s = recordCounter s"

definition getDepartmentCount :: "ShadowLedger \<Rightarrow> nat" where
  "getDepartmentCount s = departmentCounter s"

section \<open>Aggregation engine\<close>

text \<open>
  \<open>calculateTotalIncome\<close> and \<open>calculateTotalExpense\<close> have the same body up to the record
  type they compare with; \<open>calculateTotal_loop\<close> is their scan over the record ids, with
  that type as a parameter. The inner loop over \<open>departmentIds\<close> that sets \<open>matchesDept\<close>
  is the membership test of the list. The increment of the index \<open>j\<close> is checked.
\<close>

function calculateTotal_loop ::
  "ShadowLedger \<Rightarrow> RecordType \<Rightarrow> nat list \<Rightarrow> nat \<Rightarrow> nat \<Rightarrow> euint128 \<Rightarrow> error + euint128" where
  "calculateTotal_loop s rt departmentIds projId j tot =
     (if j \<le> recordCounter s
      then
        (if j = max_uint256 then Inl Panic
         else calculateTotal_loop s rt departmentIds projId (j + 1)
           (if rec_exists (records s j)
               \<and> departmentId (records s j) \<in> set departmentIds
               \<and> (projId = 0 \<or> projectId (records s j) = projId)
               \<and> recordType (records s j) = rt
            then FHE_add tot (amount (records s j))
            else tot))
      else Inr tot)"
  by pat_completeness auto
termination
  by (relation "measure (\<lambda>(s, rt, departmentIds, projId, j, tot). Suc (recordCounter s) - j)") auto

definition calculateTotal ::
  "RecordType \<Rightarrow> env \<Rightarrow> nat list \<Rightarrow> nat \<Rightarrow> ShadowLedger \<Rightarrow> euint128 outcome" where
  "calculateTotal rt e departmentIds projId s =
     (if \<not> list_all (\<lambda>deptId. dept_exists (departments s deptId)) departmentIds
      then (Inl InvalidDepartment, s)
      else case calculateTotal_loop s rt departmentIds projId 1 (FHE_asEuint128 0) of
        Inl err \<Rightarrow> (Inl err, s)
      | Inr tot \<Rightarrow> (Inr tot, FHE_allow tot (msg_sender e) (FHE_allowThis e tot s)))"

definition calculateTotalIncome ::
  "env \<Rightarrow> nat list \<Rightarrow> nat \<Rightarrow> ShadowLedger \<Rightarrow> euint128 outcome" where
  "calculateTotalIncome = calculateTotal Income"

definition calculateTotalExpense ::
  "env \<Rightarrow> nat list \<Rightarrow> nat \<Rightarrow> ShadowLedger \<Rightarrow> euint128 outcome" where
  "calculateTotalExpense = calculateTotal Expense"

text \<open>
  \<open>calculateNetIncome\<close> calls the two totals through \<open>this\<close>: they run as calls of their
  own whose sender is the contract itself, and a revert of either one reverts the caller.
\<close>

definition calculateNetIncome ::
  "env \<Rightarrow> nat list \<Rightarrow> nat \<Rightarrow> ShadowLedger \<Rightarrow> euint128 outcome" where
  "calculateNetIncome e departmentIds projId s =
     (case calculateTotalIncome (e\<lparr> msg_sender := address_this e \<rparr>) departmentIds projId s of
        (Inl err, _) \<Rightarrow> (Inl err, s)
      | (Inr totalIncome, s1) \<Rightarrow>
          (case calculateTotalExpense (e\<lparr> msg_sender := address_this e \<rparr>) departmentIds projId s1 of
             (Inl err, _) \<Rightarrow> (Inl err, s1)
           | (Inr totalExpense, s2) \<Rightarrow>
               let netIncome = FHE_sub totalIncome totalExpense;
                   s3 = FHE_allowThis e netIncome s2;
                   s4 = FHE_allow netIncome (msg_sender e) s3
               in (Inr netIncome, s4)))"

section \<open>Calculation log\<close>

definition saveCalculation ::
  "env \<Rightarrow> RecordType \<Rightarrow> externalEuint128 \<Rightarrow> inputProof \<Rightarrow> nat list \<Rightarrow> nat list \<Rightarrow> string
     \<Rightarrow> ShadowLedger \<Rightarrow> nat outcome" where
  "saveCalculation e ct encryptedResult proof departmentIds projectIds descr s =
     (case FHE_fromExternal encryptedResult proof of
        Inl err \<Rightarrow> (Inl err, s)
      | Inr res \<Rightarrow>
          if calculationCounter s = max_uint256 then (Inl Panic, s)
          else
            let s1 = s\<lparr> calculationCounter := calculationCounter s + 1 \<rparr>;
                calculationId = calculationCounter s1;
                s2 = s1\<lparr> calculations := (calculations s1)
                       (calculationId := \<lparr> calc_id = calculationId, calculationType = ct,
                          result = res, calc_departmentIds = departmentIds,
                          calc_projectIds = projectIds, calc_timestamp = block_timestamp e,
                          calc_exists = True \<rparr>) \<rparr>;
                s3 = FHE_allowThis e res s2;
                s4 = FHE_allow res (msg_sender e) s3
            in (Inr calculationId, s4))"

section \<open>Auditors\<close>

function addAuditor_loop :: "address \<Rightarrow> nat \<Rightarrow> ShadowLedger \<Rightarrow> unit outcome" where
  "addAuditor_loop auditor i s =
     (if i \<le> recordCounter s
      then
        (let s' = (if rec_exists (records s i) then FHE_allow (amount (records s i)) auditor s
                   else s)
         in if i = max_uint256 then (Inl Panic, s')
            else addAuditor_loop auditor (i + 1) s')
      else (Inr (), s))"
  by pat_completeness auto
termination
  by (relation "measure (\<lambda>(auditor, i, s). Suc (recordCounter s) - i)")
    (auto simp: FHE_allow_def)

definition addAuditor :: "env \<Rightarrow> address \<Rightarrow> ShadowLedger \<Rightarrow> unit outcome" where
  "addAuditor e auditor s =
     (if msg_sender e \<noteq> systemAdmin s then (Inl OnlySystemAdmin, s)
      else if auditor = 0 then (Inl InvalidAuditor, s)
      else if auditors s auditor then (Inl AlreadyAuditor, s)
      else addAuditor_loop auditor 1 (s\<lparr> auditors := (auditors s)(auditor := True) \<rparr>))"

definition removeAuditor :: "env \<Rightarrow> address \<Rightarrow> ShadowLedger \<Rightarrow> unit outcome" where
  "removeAuditor e auditor s =
     (if msg_sender e \<noteq> systemAdmin s then (Inl OnlySystemAdmin, s)
      else if \<not> auditors s auditor then (Inl NotAnAuditor, s)
      else (Inr (), s\<lparr> auditors := (auditors s)(auditor := False) \<rparr>))"

definition isAuditor :: "address \<Rightarrow> ShadowLedger \<Rightarrow> bool" where
  "isAuditor auditor s = auditors s auditor"

section \<open>Transactions and reachable states\<close>

text \<open>
  A failed \<open>require\<close> and a panic revert the call: in Solidity the storage written by
  a call that reverts is discarded, and the storage the call started from stays. This is
  also what section 6 of the specification asks of the transaction substrate.
\<close>

definition transact :: "ShadowLedger \<Rightarrow> 'a outcome \<Rightarrow> 'a outcome" where
  "transact s out = (case out of (Inl err, _) \<Rightarrow> (Inl err, s) | (Inr v, s') \<Rightarrow> (Inr v, s'))"

text \<open>
  The state-changing functions of the contract with their arguments, what they return,
  and the dispatch of a call to its function.
\<close>

datatype call =
    CreateDepartment string address
  | AddDepartmentMember nat address
  | RemoveDepartmentMember nat address
  | CreateRecord RecordType externalEuint128 inputProof nat nat string
  | CalculateTotalIncome "nat list" nat
  | CalculateTotalExpense "nat list" nat
  | CalculateNetIncome "nat list" nat
  | SaveCalculation RecordType externalEuint128 inputProof "nat list" "nat list" string
  | AddAuditor address
  | RemoveAuditor address

datatype retval = RetId nat | RetHandle euint128 | RetUnit

definition returning :: "('a \<Rightarrow> retval) \<Rightarrow> 'a outcome \<Rightarrow> retval outcome" where
  "returning f out = (case out of (Inl err, w) \<Rightarrow> (Inl err, w) | (Inr v, w) \<Rightarrow> (Inr (f v), w))"

fun run :: "env \<Rightarrow> call \<Rightarrow> ShadowLedger \<Rightarrow> retval outcome" where
  "run e (CreateDepartment nm adm) s = returning RetId (createDepartment e nm adm s)"
| "run e (AddDepartmentMember d m) s = returning (\<lambda>_. RetUnit) (addDepartmentMember e d m s)"
| "run e (RemoveDepartmentMember d m) s = returning (\<lambda>_. RetUnit) (removeDepartmentMember e d m s)"
| "run e (CreateRecord rt a p d pr de) s = returning RetId (createRecord e rt a p d pr de s)"
| "run e (CalculateTotalIncome ds pr) s = returning RetHandle (calculateTotalIncome e ds pr s)"
| "run e (CalculateTotalExpense ds pr) s = returning RetHandle (calculateTotalExpense e ds pr s)"
| "run e (CalculateNetIncome ds pr) s = returning RetHandle (calculateNetIncome e ds pr s)"
| "run e (SaveCalculation ct a p ds prs de) s = returning RetId (saveCalculation e ct a p ds prs de s)"
| "run e (AddAuditor a) s = returning (\<lambda>_. RetUnit) (addAuditor e a s)"
| "run e (RemoveAuditor a) s = returning (\<lambda>_. RetUnit) (removeAuditor e a s)"

definition execute :: "env \<Rightarrow> call \<Rightarrow> ShadowLedger \<Rightarrow> retval outcome" where
  "execute e c s = transact s (run e c s)"

text \<open>
  The reachable states: the state after deployment, and the state after any call of a
  state-changing function, by any caller with any arguments, in a reachable state.
\<close>

inductive reachable :: "ShadowLedger \<Rightarrow> bool" where
  deployed: "reachable (constructor e)"
| called: "reachable s \<Longrightarrow> reachable (snd (execute e c s))"

section \<open>Notions used in the statements\<close>


definition matchingRecordIds :: "ShadowLedger \<Rightarrow> RecordType \<Rightarrow> nat list \<Rightarrow> nat \<Rightarrow> nat list" where
  "matchingRecordIds s rt departmentIds projId =
     filter (\<lambda>j. rec_exists (records s j)
                \<and> departmentId (records s j) \<in> set departmentIds
                \<and> (projId = 0 \<or> projectId (records s j) = projId)
                \<and> recordType (records s j) = rt)
       [1..<Suc (recordCounter s)]"

definition clearAmount :: "(nat \<Rightarrow> 128 word) \<Rightarrow> ShadowLedger \<Rightarrow> nat \<Rightarrow> 128 word" where
  "clearAmount key s j = cleartext key (amount (records s j))"

text \<open>
  The part of the storage that the department registry owns, and the invariant of that
  part that the proofs about reachable states carry along.
\<close>

definition department_state ::
  "ShadowLedger \<Rightarrow> (nat \<Rightarrow> Department) \<times> (address \<Rightarrow> nat list) \<times> nat \<times> address \<times> (nat \<Rightarrow> address)" where
  "department_state s =
     (departments s, userDepartments s, departmentCounter s, systemAdmin s, departmentAdmins s)"

definition department_invariant :: "ShadowLedger \<Rightarrow> bool" where
  "department_invariant s \<longleftrightarrow>
     1 \<le> departmentCounter s
   \<and> dept_exists (departments s 1)
   \<and> admin (departments s 1) = systemAdmin s
   \<and> 1 \<notin> set (userDepartments s (systemAdmin s))
   \<and> systemAdmin s \<notin> set (members (departments s 1))
   \<and> (\<forall>d. dept_exists (departments s d) \<and> d \<noteq> 1 \<longrightarrow>
          admin (departments s d) \<in> set (members (departments s d)))"

text \<open>
  The part of the storage that the record store owns, and its invariant: the existing
  records are those with an id from 1 to the record counter.
\<close>

definition record_state :: "ShadowLedger \<Rightarrow> (nat \<Rightarrow> Record) \<times> nat" where
  "record_state s = (records s, recordCounter s)"

definition record_invariant :: "ShadowLedger \<Rightarrow> bool" where
  "record_invariant s \<longleftrightarrow>
     recordCounter s \<le> max_uint256
   \<and> (\<forall>j. rec_exists (records s j) \<longleftrightarrow> 1 \<le> j \<and> j \<le> recordCounter s)"

section \<open>Fixture of the test suite\<close>

text \<open>
  The signers of \<open>test/ShadowLedger.ts\<close> and the ledgers its tests build: the deployed
  contract, the department ``Engineering'' (id 2) administered by alice, a second
  department ``Sales'' (id 3) administered by bob, and records created in them.
\<close>

definition deployer :: address where "deployer = 1"
definition alice :: address where "alice = 2"
definition bob :: address where "bob = 3"
definition charlie :: address where "charlie = 4"

definition sent_by :: "address \<Rightarrow> env" where
  "sent_by a = \<lparr> msg_sender = a, address_this = 1000, block_timestamp = 0 \<rparr>"

definition deployed_ledger :: ShadowLedger where
  "deployed_ledger = constructor (sent_by deployer)"

definition engineering_ledger :: ShadowLedger where
  "engineering_ledger =
     snd (execute (sent_by deployer) (CreateDepartment ''Engineering'' alice) deployed_ledger)"

definition one_record_ledger :: ShadowLedger where
  "one_record_ledger =
     snd (execute (sent_by alice) (CreateRecord Income 1 [1] 2 0 ''Income 1'') engineering_ledger)"

definition audited_ledger :: ShadowLedger where
  "audited_ledger = snd (execute (sent_by deployer) (AddAuditor charlie) one_record_ledger)"

definition sales_ledger :: ShadowLedger where
  "sales_ledger =
     snd (execute (sent_by deployer) (CreateDepartment ''Sales'' bob) engineering_ledger)"

definition income1_ledger :: ShadowLedger where
  "income1_ledger =
     snd (execute (sent_by alice) (CreateRecord Income 1 [1] 2 0 ''Income 1'') sales_ledger)"

definition cross_dept_ledger :: ShadowLedger where
  "cross_dept_ledger =
     snd (execute (sent_by bob) (CreateRecord Income 2 [2] 3 0 ''Income 2'') income1_ledger)"

definition expense_ledger :: ShadowLedger where
  "expense_ledger =
     snd (execute (sent_by alice) (CreateRecord Expense 3 [3] 2 0 ''Expense'') cross_dept_ledger)"

text \<open>The clear values the tests encrypt: 1000, 2000 and 500.\<close>

definition test_key :: "nat \<Rightarrow> 128 word" where
  "test_key n = (if n = 1 then 1000 else if n = 2 then 2000 else if n = 3 then 500 else 0)"

text \<open>Clear values under which the expense of the fixture exceeds its income by one.\<close>

definition deficit_key :: "nat \<Rightarrow> 128 word" where
  "deficit_key n = (if n = 1 then 1000 else if n = 3 then 1001 else 0)"

text \<open>
  The test ``should add member to department'': alice adds bob to Engineering.
\<close>

definition member_ledger :: ShadowLedger where
  "member_ledger =
     snd (execute (sent_by alice) (AddDepartmentMember 2 bob) engineering_ledger)"

text \<open>
  A ledger whose record counter holds the last \<open>uint256\<close>: there the loop of
  \<open>addAuditor\<close> panics after the auditor flag has been written.
\<close>

definition full_ledger :: ShadowLedger where
  "full_ledger = deployed_ledger\<lparr> recordCounter := max_uint256 \<rparr>"

lemmas fixture_defs = deployer_def alice_def bob_def charlie_def sent_by_def deployed_ledger_def
  engineering_ledger_def one_record_ledger_def audited_ledger_def sales_ledger_def
  income1_ledger_def cross_dept_ledger_def expense_ledger_def member_ledger_def

lemmas op_defs = execute_def transact_def returning_def constructor_def createDepartment_def
  addDepartmentMember_def removeDepartmentMember_def createRecord_def addAuditor_def
  removeAuditor_def isDepartmentMember_def isAuditor_def FHE_fromExternal_def FHE_allow_def
  FHE_allowThis_def max_uint256_def Let_def

section \<open>The scans over the record ids\<close>

declare getDepartmentRecords_loop.simps [simp del]
declare getAllRecords_loop.simps [simp del]
declare calculateTotal_loop.simps [simp del]
declare addAuditor_loop.simps [simp del]
declare swap_pop.simps [simp del]

lemmas loop_simps = getDepartmentRecords_loop.simps getAllRecords_loop.simps
  calculateTotal_loop.simps addAuditor_loop.simps swap_pop.simps


text \<open>
  Below the last \<open>uint256\<close> the scan of a total never panics: it adds the amounts of
  the matching records, in the order of their ids, to the accumulator.
\<close>

lemma calculateTotal_loop_sum:
  assumes "recordCounter s < max_uint256"
  shows "\<exists>h. calculateTotal_loop s rt departmentIds projId j tot = Inr h
     \<and> cleartext key h = cleartext key tot + sum_list (map (clearAmount key s)
        (filter (\<lambda>j. rec_exists (records s j)
                \<and> departmentId (records s j) \<in> set departmentIds
                \<and> (projId = 0 \<or> projectId (records s j) = projId)
                \<and> recordType (records s j) = rt)
           [j..<Suc (recordCounter s)]))"
  using assms
proof (induction s rt departmentIds projId j tot rule: calculateTotal_loop.induct)
  case (1 s rt departmentIds projId j tot)
  define P where "P = (\<lambda>j. rec_exists (records s j)
                \<and> departmentId (records s j) \<in> set departmentIds
                \<and> (projId = 0 \<or> projectId (records s j) = projId)
                \<and> recordType (records s j) = rt)"
  define tot' where "tot' = (if P j then FHE_add tot (amount (records s j)) else tot)"
  have unfold: "calculateTotal_loop s rt departmentIds projId j tot =
     (if j \<le> recordCounter s
      then (if j = max_uint256 then Inl Panic
            else calculateTotal_loop s rt departmentIds projId (j + 1) tot')
      else Inr tot)"
    unfolding P_def tot'_def by (rule calculateTotal_loop.simps)
  show ?case
  proof (cases "j \<le> recordCounter s")
    case False
    have "calculateTotal_loop s rt departmentIds projId j tot = Inr tot"
      by (subst unfold, rule if_not_P, rule False)
    then show ?thesis using False by simp
  next
    case True
    then have ne: "j \<noteq> max_uint256" using "1.prems" by simp
    have up: "[j..<Suc (recordCounter s)] = j # [j + 1..<Suc (recordCounter s)]"
      using True by (simp add: upt_conv_Cons)
    from "1.IH" [OF True ne "1.prems"] obtain h where
      h: "calculateTotal_loop s rt departmentIds projId (j + 1) tot' = Inr h"
      and c: "cleartext key h = cleartext key tot' + sum_list (map (clearAmount key s)
        (filter P [j + 1..<Suc (recordCounter s)]))"
      unfolding P_def tot'_def by blast
    have r: "calculateTotal_loop s rt departmentIds projId j tot = Inr h"
      using True ne h by (subst unfold) simp
    have "cleartext key tot' + sum_list (map (clearAmount key s)
        (filter P [j + 1..<Suc (recordCounter s)]))
        = cleartext key tot + sum_list (map (clearAmount key s)
        (filter P (j # [j + 1..<Suc (recordCounter s)])))"
      unfolding tot'_def
      by (cases "P j") (simp_all add: FHE_add_def clearAmount_def add.assoc del: upt_Suc)
    with c r show ?thesis unfolding up P_def by simp
  qed
qed

section \<open>What the aggregations return\<close>

text \<open>Sums and differences of 128-bit words, read as natural numbers.\<close>

lemma unat_sum_list_word:
  "unat (sum_list ws :: 128 word) = sum_list (map unat ws) mod 2 ^ 128"
proof (induction ws)
  case Nil
  show ?case by simp
next
  case (Cons w ws)
  have "unat (w + sum_list ws) = (unat w + unat (sum_list ws)) mod 2 ^ 128"
    by (simp add: unat_word_ariths)
  also have "\<dots> = (unat w + sum_list (map unat ws) mod 2 ^ 128) mod 2 ^ 128"
    using Cons.IH by simp
  also have "\<dots> = (unat w + sum_list (map unat ws)) mod 2 ^ 128"
    by (simp add: mod_add_right_eq)
  finally show ?case by simp
qed

lemma unat_sub_wrap:
  "unat (a - b :: 128 word) = (unat a + 2 ^ 128 - unat b) mod 2 ^ 128"
proof -
  have la: "unat a < 2 ^ 128" and lb: "unat b < 2 ^ 128"
    using unsigned_less [of a, where 'a = nat] unsigned_less [of b, where 'a = nat] by simp_all
  show ?thesis
  proof (cases "unat b \<le> unat a")
    case True
    then have "unat a + 2 ^ 128 - unat b = (unat a - unat b) + 1 * 2 ^ 128" by simp
    then have "(unat a + 2 ^ 128 - unat b) mod 2 ^ 128 = (unat a - unat b) mod 2 ^ 128"
      by (simp only: mod_mult_self1)
    also have "\<dots> = unat a - unat b" using la by simp
    finally show ?thesis using True by (simp add: unat_sub_if')
  next
    case False
    then have "unat a + 2 ^ 128 - unat b < 2 ^ 128" using lb by simp
    then show ?thesis using False by (simp add: unat_sub_if')
  qed
qed

text \<open>What a total and the net income return.\<close>

lemma calculateTotal_result:
  assumes "list_all (\<lambda>d. dept_exists (departments s d)) departmentIds"
    and "recordCounter s < max_uint256"
  shows "\<exists>h. calculateTotal rt e departmentIds projId s
            = (Inr h, FHE_allow h (msg_sender e) (FHE_allowThis e h s))
     \<and> cleartext key h = sum_list (map (clearAmount key s) (matchingRecordIds s rt departmentIds projId))"
proof -
  from calculateTotal_loop_sum [OF assms(2), of rt departmentIds projId 1 "FHE_asEuint128 0" key]
  obtain h where h: "calculateTotal_loop s rt departmentIds projId 1 (FHE_asEuint128 0) = Inr h"
    and c: "cleartext key h = cleartext key (FHE_asEuint128 0)
        + sum_list (map (clearAmount key s) (matchingRecordIds s rt departmentIds projId))"
    unfolding matchingRecordIds_def by blast
  have "calculateTotal rt e departmentIds projId s
      = (Inr h, FHE_allow h (msg_sender e) (FHE_allowThis e h s))"
    using assms(1) h by (simp add: calculateTotal_def)
  moreover have "cleartext key h
      = sum_list (map (clearAmount key s) (matchingRecordIds s rt departmentIds projId))"
    using c by (simp add: FHE_asEuint128_def)
  ultimately show ?thesis by blast
qed

lemma matchingRecordIds_set:
  "set (matchingRecordIds s rt departmentIds projId) =
     {j. 1 \<le> j \<and> j \<le> recordCounter s \<and> rec_exists (records s j)
         \<and> departmentId (records s j) \<in> set departmentIds
         \<and> (projId = 0 \<or> projectId (records s j) = projId)
         \<and> recordType (records s j) = rt}"
  unfolding matchingRecordIds_def by (auto simp del: upt_Suc)

lemma matchingRecordIds_distinct: "distinct (matchingRecordIds s rt departmentIds projId)"
  unfolding matchingRecordIds_def by (simp del: upt_Suc)

lemma matchingRecordIds_FHE_allow [simp]:
  "matchingRecordIds (FHE_allow h p s) rt ds pr = matchingRecordIds s rt ds pr"
  by (simp add: matchingRecordIds_def FHE_allow_def)

lemma clearAmount_FHE_allow [simp]:
  "clearAmount key (FHE_allow h p s) = clearAmount key s"
  by (rule ext) (simp add: clearAmount_def FHE_allow_def)

lemma calculateNetIncome_result:
  assumes a: "list_all (\<lambda>d. dept_exists (departments s d)) departmentIds"
    and b: "recordCounter s < max_uint256"
  shows "\<exists>h s'. calculateNetIncome e departmentIds projId s = (Inr h, s')
     \<and> (h, msg_sender e) \<in> acl s'
     \<and> cleartext key h
         = sum_list (map (clearAmount key s) (matchingRecordIds s Income departmentIds projId))
         - sum_list (map (clearAmount key s) (matchingRecordIds s Expense departmentIds projId))"
proof -
  let ?e = "e\<lparr> msg_sender := address_this e \<rparr>"
  from calculateTotal_result [OF a b, of Income ?e projId key] obtain hi where
    ri: "calculateTotalIncome ?e departmentIds projId s
          = (Inr hi, FHE_allow hi (msg_sender ?e) (FHE_allowThis ?e hi s))"
    and ci: "cleartext key hi
          = sum_list (map (clearAmount key s) (matchingRecordIds s Income departmentIds projId))"
    unfolding calculateTotalIncome_def by blast
  let ?s1 = "FHE_allow hi (msg_sender ?e) (FHE_allowThis ?e hi s)"
  have a1: "list_all (\<lambda>d. dept_exists (departments ?s1 d)) departmentIds"
    using a by (simp add: FHE_allow_def FHE_allowThis_def)
  have b1: "recordCounter ?s1 < max_uint256"
    using b by (simp add: FHE_allow_def FHE_allowThis_def)
  from calculateTotal_result [OF a1 b1, of Expense ?e projId key] obtain he where
    re: "calculateTotalExpense ?e departmentIds projId ?s1
          = (Inr he, FHE_allow he (msg_sender ?e) (FHE_allowThis ?e he ?s1))"
    and ce: "cleartext key he
          = sum_list (map (clearAmount key s) (matchingRecordIds s Expense departmentIds projId))"
    unfolding calculateTotalExpense_def by (auto simp: FHE_allowThis_def)
  let ?s2 = "FHE_allow he (msg_sender ?e) (FHE_allowThis ?e he ?s1)"
  have "calculateNetIncome e departmentIds projId s
      = (Inr (FHE_sub hi he),
         FHE_allow (FHE_sub hi he) (msg_sender e) (FHE_allowThis e (FHE_sub hi he) ?s2))"
    by (simp only: calculateNetIncome_def ri re prod.case sum.case Let_def)
  moreover have "(FHE_sub hi he, msg_sender e)
      \<in> acl (FHE_allow (FHE_sub hi he) (msg_sender e) (FHE_allowThis e (FHE_sub hi he) ?s2))"
    by (simp add: FHE_allow_def)
  moreover have "cleartext key (FHE_sub hi he)
      = sum_list (map (clearAmount key s) (matchingRecordIds s Income departmentIds projId))
        - sum_list (map (clearAmount key s) (matchingRecordIds s Expense departmentIds projId))"
    by (simp add: FHE_sub_def ci ce)
  ultimately show ?thesis by blast
qed

section \<open>What the calls that issue grants return\<close>

text \<open>
  Below the last \<open>uint256\<close> the loop of \<open>addAuditor\<close> never panics: it grants the amount of
  every existing record with id from \<open>i\<close> on to the auditor.
\<close>

lemma addAuditor_loop_eq:
  assumes "recordCounter s < max_uint256"
  shows "addAuditor_loop p i s =
     (Inr (), s\<lparr> acl := acl s \<union>
        {(amount (records s j), p) | j. i \<le> j \<and> j \<le> recordCounter s \<and> rec_exists (records s j)} \<rparr>)"
  using assms
proof (induction p i s rule: addAuditor_loop.induct)
  case (1 p i s)
  define s' where "s' = (if rec_exists (records s i) then FHE_allow (amount (records s i)) p s else s)"
  have unfold: "addAuditor_loop p i s =
     (if i \<le> recordCounter s
      then (if i = max_uint256 then (Inl Panic, s') else addAuditor_loop p (i + 1) s')
      else (Inr (), s))"
    unfolding s'_def by (subst addAuditor_loop.simps) (simp add: Let_def)
  have same: "records s' = records s" "recordCounter s' = recordCounter s"
    by (simp_all add: s'_def FHE_allow_def)
  show ?case
  proof (cases "i \<le> recordCounter s")
    case False
    have "addAuditor_loop p i s = (Inr (), s)"
      by (subst unfold, rule if_not_P, rule False)
    moreover have "{(amount (records s j), p) | j. i \<le> j \<and> j \<le> recordCounter s \<and> rec_exists (records s j)} = {}"
      using False by auto
    moreover have "s\<lparr> acl := acl s \<union> {} \<rparr> = s"
      by simp
    ultimately show ?thesis by (simp only:)
  next
    case True
    then have ne: "i \<noteq> max_uint256" using "1.prems" by simp
    have lt: "recordCounter s' < max_uint256" using "1.prems" same by simp
    have "addAuditor_loop p i s = addAuditor_loop p (i + 1) s'"
      using True ne by (subst unfold) simp
    also have "\<dots> = (Inr (), s'\<lparr> acl := acl s' \<union>
        {(amount (records s' j), p) | j. i + 1 \<le> j \<and> j \<le> recordCounter s' \<and> rec_exists (records s' j)} \<rparr>)"
      using "1.IH" [OF True s'_def ne lt] .
    also have "s'\<lparr> acl := acl s' \<union>
        {(amount (records s' j), p) | j. i + 1 \<le> j \<and> j \<le> recordCounter s' \<and> rec_exists (records s' j)} \<rparr>
      = s\<lparr> acl := acl s \<union>
        {(amount (records s j), p) | j. i \<le> j \<and> j \<le> recordCounter s \<and> rec_exists (records s j)} \<rparr>"
    proof -
      have "acl s' \<union> {(amount (records s j), p) | j. i + 1 \<le> j \<and> j \<le> recordCounter s \<and> rec_exists (records s j)}
          = acl s \<union> {(amount (records s j), p) | j. i \<le> j \<and> j \<le> recordCounter s \<and> rec_exists (records s j)}"
        (is "?L = ?R")
      proof
        show "?L \<subseteq> ?R"
          using True by (auto simp: s'_def FHE_allow_def split: if_splits)
        show "?R \<subseteq> ?L"
        proof
          fix x assume "x \<in> ?R"
          then consider "x \<in> acl s"
            | j where "x = (amount (records s j), p)" "i \<le> j" "j \<le> recordCounter s" "rec_exists (records s j)"
            by blast
          then show "x \<in> ?L"
          proof cases
            case 1
            then show ?thesis by (simp add: s'_def FHE_allow_def)
          next
            case 2
            show ?thesis
            proof (cases "j = i")
              case True
              with 2 show ?thesis by (simp add: s'_def FHE_allow_def)
            next
              case False
              with 2 have "i + 1 \<le> j" by simp
              with 2 show ?thesis by blast
            qed
          qed
        qed
      qed
      then show ?thesis
        unfolding same by (simp add: s'_def FHE_allow_def)
    qed
    finally show ?thesis .
  qed
qed

lemma addAuditor_result:
  assumes "recordCounter s < max_uint256"
  shows "addAuditor e p s =
     (if msg_sender e \<noteq> systemAdmin s then (Inl OnlySystemAdmin, s)
      else if p = 0 then (Inl InvalidAuditor, s)
      else if auditors s p then (Inl AlreadyAuditor, s)
      else (Inr (), s\<lparr> auditors := (auditors s)(p := True),
                         acl := acl s \<union> {(amount (records s j), p) | j.
                            1 \<le> j \<and> j \<le> recordCounter s \<and> rec_exists (records s j)} \<rparr>))"
proof -
  have "recordCounter (s\<lparr> auditors := (auditors s)(p := True) \<rparr>) < max_uint256"
    using assms by simp
  from addAuditor_loop_eq [OF this, of p 1]
  show ?thesis by (simp add: addAuditor_def)
qed

text \<open>
  A successful \<open>createRecord\<close>.
\<close>

lemma createRecord_success:
  assumes "createRecord e rt a pf d pj de s = (Inr rid, s')"
  shows "rid = recordCounter s + 1
    \<and> s' = s\<lparr> recordCounter := recordCounter s + 1,
              records := (records s)(recordCounter s + 1 :=
                 \<lparr> rec_id = recordCounter s + 1, recordType = rt, amount = Ciphertext a,
                   departmentId = d, projectId = pj, description = de,
                   timestamp = block_timestamp e, creator = msg_sender e, rec_exists = True \<rparr>),
              acl := insert (Ciphertext a, msg_sender e)
                       (insert (Ciphertext a, address_this e) (acl s)) \<rparr>
    \<and> isDepartmentMember (msg_sender e) d s \<and> de \<noteq> [] \<and> a \<in> set pf
    \<and> recordCounter s \<noteq> max_uint256"
  using assms
  by (auto simp: createRecord_def FHE_fromExternal_def FHE_allow_def FHE_allowThis_def Let_def
      split: if_splits)

section \<open>Invariant of the department registry\<close>

text \<open>
  Swap-and-pop removes nothing but occurrences of the element looked for.
\<close>

lemma swap_pop_subset: "set (swap_pop i x xs) \<subseteq> set xs"
proof (induction i x xs rule: swap_pop.induct)
  case (1 i x xs)
  show ?case
  proof (cases "i < length xs")
    case False
    then show ?thesis by (subst swap_pop.simps) simp
  next
    case True
    show ?thesis
    proof (cases "xs ! i = x")
      case False
      with True "1.IH" show ?thesis by (subst swap_pop.simps) simp
    next
      case eq: True
      have "set (butlast (xs[i := xs ! (length xs - 1)])) \<subseteq> set (xs[i := xs ! (length xs - 1)])"
        by (auto dest: in_set_butlastD)
      also have "\<dots> \<subseteq> insert (xs ! (length xs - 1)) (set xs)"
        by (rule set_update_subset_insert)
      also have "\<dots> = set xs"
        using True by (auto simp: insert_absorb)
      finally show ?thesis using True eq by (subst swap_pop.simps) simp
    qed
  qed
qed

lemma swap_pop_keeps:
  assumes "y \<in> set xs" and "y \<noteq> x"
  shows "y \<in> set (swap_pop i x xs)"
  using assms
proof (induction i x xs rule: swap_pop.induct)
  case (1 i x xs)
  show ?case
  proof (cases "i < length xs")
    case False
    then show ?thesis using "1.prems" by (subst swap_pop.simps) simp
  next
    case True
    show ?thesis
    proof (cases "xs ! i = x")
      case False
      with True "1.IH" "1.prems" show ?thesis by (subst swap_pop.simps) simp
    next
      case eq: True
      from "1.prems"(1) obtain k where k: "k < length xs" "xs ! k = y"
        by (auto simp: in_set_conv_nth)
      with eq "1.prems"(2) have ki: "k \<noteq> i" by auto
      let ?ys = "xs[i := xs ! (length xs - 1)]"
      have len: "length (butlast ?ys) = length xs - 1" by simp
      have "y \<in> set (butlast ?ys)"
      proof (cases "k < length xs - 1")
        case kl: True
        then have "butlast ?ys ! k = y"
          using k ki by (simp add: nth_butlast)
        with kl len show ?thesis by (metis nth_mem)
      next
        case kl: False
        with k have kk: "k = length xs - 1" by simp
        with ki True have il: "i < length xs - 1" by simp
        then have "butlast ?ys ! i = y"
          using k kk True by (simp add: nth_butlast)
        with il len show ?thesis by (metis nth_mem)
      qed
      then show ?thesis using True eq by (subst swap_pop.simps) simp
    qed
  qed
qed

text \<open>
  The loop of \<open>addAuditor\<close> writes grants only, and the scans fail by panic only.
\<close>

lemma addAuditor_loop_frame: "\<exists>A. snd (addAuditor_loop p i s) = s\<lparr> acl := A \<rparr>"
proof (induction p i s rule: addAuditor_loop.induct)
  case (1 p i s)
  define s' where "s' = (if rec_exists (records s i) then FHE_allow (amount (records s i)) p s else s)"
  have unfold: "addAuditor_loop p i s =
     (if i \<le> recordCounter s
      then (if i = max_uint256 then (Inl Panic, s') else addAuditor_loop p (i + 1) s')
      else (Inr (), s))"
    unfolding s'_def by (subst addAuditor_loop.simps) (simp add: Let_def)
  have s'A: "\<exists>A. s' = s\<lparr> acl := A \<rparr>"
  proof (cases "rec_exists (records s i)")
    case True
    then have "s' = s\<lparr> acl := insert (amount (records s i), p) (acl s) \<rparr>"
      by (simp add: s'_def FHE_allow_def)
    then show ?thesis by blast
  next
    case False
    then have "s' = s\<lparr> acl := acl s \<rparr>" by (simp add: s'_def)
    then show ?thesis by blast
  qed
  show ?case
  proof (cases "i \<le> recordCounter s")
    case False
    then have "snd (addAuditor_loop p i s) = s\<lparr> acl := acl s \<rparr>"
      by (subst unfold) simp
    then show ?thesis by blast
  next
    case True
    show ?thesis
    proof (cases "i = max_uint256")
      case m: True
      with True have "snd (addAuditor_loop p i s) = s'" by (subst unfold) simp
      with s'A show ?thesis by simp
    next
      case m: False
      from "1.IH" [OF True s'_def m] obtain A where
        "snd (addAuditor_loop p (i + 1) s') = s'\<lparr> acl := A \<rparr>" by blast
      moreover from s'A obtain B where "s' = s\<lparr> acl := B \<rparr>" by blast
      ultimately have "snd (addAuditor_loop p (i + 1) s') = s\<lparr> acl := A \<rparr>" by simp
      with True m have "snd (addAuditor_loop p i s) = s\<lparr> acl := A \<rparr>"
        by (subst unfold) simp
      then show ?thesis by blast
    qed
  qed
qed

lemma addAuditor_loop_error: "addAuditor_loop p i s = (Inl err, w) \<Longrightarrow> err = Panic"
proof (induction p i s rule: addAuditor_loop.induct)
  case (1 p i s)
  define s' where "s' = (if rec_exists (records s i) then FHE_allow (amount (records s i)) p s else s)"
  have unfold: "addAuditor_loop p i s =
     (if i \<le> recordCounter s
      then (if i = max_uint256 then (Inl Panic, s') else addAuditor_loop p (i + 1) s')
      else (Inr (), s))"
    unfolding s'_def by (subst addAuditor_loop.simps) (simp add: Let_def)
  show ?case
  proof (cases "i \<le> recordCounter s \<and> i \<noteq> max_uint256")
    case True
    then have "addAuditor_loop p (i + 1) s' = (Inl err, w)"
      using "1.prems" by (subst (asm) unfold) simp
    with "1.IH" [OF _ s'_def] True show ?thesis by blast
  next
    case False
    then show ?thesis using "1.prems" by (subst (asm) unfold) (auto split: if_splits)
  qed
qed

lemma calculateTotal_loop_error:
  "calculateTotal_loop s rt ds pr j tot = Inl err \<Longrightarrow> err = Panic"
proof (induction s rt ds pr j tot rule: calculateTotal_loop.induct)
  case (1 s rt ds pr j tot)
  show ?case
  proof (cases "j \<le> recordCounter s \<and> j \<noteq> max_uint256")
    case True
    with "1.prems" "1.IH" show ?thesis
      by (subst (asm) calculateTotal_loop.simps) simp
  next
    case False
    then show ?thesis using "1.prems"
      by (subst (asm) calculateTotal_loop.simps) (auto split: if_splits)
  qed
qed

text \<open>
  Calls outside the department registry leave its part of the storage alone.
\<close>

lemma department_invariant_cong:
  "department_state s' = department_state s \<Longrightarrow> department_invariant s' = department_invariant s"
  by (simp add: department_state_def department_invariant_def)

lemma transact_snd:
  "snd (transact s out) = (case fst out of Inl err \<Rightarrow> s | Inr v \<Rightarrow> snd out)"
  by (cases out) (auto simp: transact_def split: sum.splits)

lemma returning_fst_snd:
  "snd (returning f out) = snd out"
  "fst (returning f out) = map_sum id f (fst out)"
  by (cases out; cases "fst out"; simp add: returning_def)+

lemma createRecord_department_state:
  "department_state (snd (createRecord e rt a pf d pj de s)) = department_state s"
  by (simp add: createRecord_def department_state_def FHE_allow_def FHE_allowThis_def Let_def
      split: sum.splits)

lemma calculateTotal_department_state:
  "department_state (snd (calculateTotal rt e ds pr s)) = department_state s"
  by (simp add: calculateTotal_def department_state_def FHE_allow_def FHE_allowThis_def
      split: sum.splits)

lemma calculateNetIncome_department_state:
  "department_state (snd (calculateNetIncome e ds pr s)) = department_state s"
proof -
  let ?e = "e\<lparr> msg_sender := address_this e \<rparr>"
  obtain r1 s1 where c1: "calculateTotal Income ?e ds pr s = (r1, s1)" by (cases "calculateTotal Income ?e ds pr s")
  obtain r2 s2 where c2: "calculateTotal Expense ?e ds pr s1 = (r2, s2)" by (cases "calculateTotal Expense ?e ds pr s1")
  have d1: "department_state s1 = department_state s"
    using calculateTotal_department_state [of Income ?e ds pr s] c1 by simp
  have d2: "department_state s2 = department_state s"
    using calculateTotal_department_state [of Expense ?e ds pr s1] c2 d1 by simp
  show ?thesis
    using c1 c2 d1 d2
    by (cases r1; cases r2)
      (simp_all add: calculateNetIncome_def calculateTotalIncome_def calculateTotalExpense_def
        Let_def, simp_all add: department_state_def FHE_allow_def FHE_allowThis_def)
qed

lemma saveCalculation_department_state:
  "department_state (snd (saveCalculation e ct a pf ds prs de s)) = department_state s"
  by (simp add: saveCalculation_def department_state_def FHE_allow_def FHE_allowThis_def Let_def
      split: sum.splits)

lemma addAuditor_department_state:
  "department_state (snd (addAuditor e p s)) = department_state s"
proof -
  obtain A where "snd (addAuditor_loop p 1 (s\<lparr> auditors := (auditors s)(p := True) \<rparr>))
      = s\<lparr> auditors := (auditors s)(p := True), acl := A \<rparr>"
    using addAuditor_loop_frame [of p 1 "s\<lparr> auditors := (auditors s)(p := True) \<rparr>"] by auto
  then show ?thesis
    by (simp add: addAuditor_def department_state_def)
qed

lemma removeAuditor_department_state:
  "department_state (snd (removeAuditor e p s)) = department_state s"
  by (simp add: removeAuditor_def department_state_def)

text \<open>
  The invariant holds after construction and is kept by every call.
\<close>

lemma department_invariant_constructor: "department_invariant (constructor e)"
  by (simp add: department_invariant_def constructor_def zero_Department_def)

lemma department_invariant_createDepartment:
  assumes "department_invariant s"
  shows "department_invariant (snd (createDepartment e nm adm s))"
  using assms
  by (auto simp: department_invariant_def createDepartment_def Let_def)

lemma department_invariant_addDepartmentMember:
  assumes "department_invariant s"
  shows "department_invariant (snd (addDepartmentMember e d m s))"
  using assms
  by (auto simp: department_invariant_def addDepartmentMember_def isDepartmentMember_def Let_def)

lemma department_invariant_removeDepartmentMember:
  assumes "department_invariant s"
  shows "department_invariant (snd (removeDepartmentMember e d m s))"
proof (cases "fst (removeDepartmentMember e d m s)")
  case (Inl err)
  then have "snd (removeDepartmentMember e d m s) = s"
    by (auto simp: removeDepartmentMember_def Let_def split: if_splits)
  with assms show ?thesis by simp
next
  case (Inr u)
  then have ok: "dept_exists (departments s d)" "m \<noteq> admin (departments s d)"
    and s': "snd (removeDepartmentMember e d m s) =
      s\<lparr> departments := (departments s)
            (d := (departments s d)\<lparr> members := swap_pop 0 m (members (departments s d)) \<rparr>),
         userDepartments := (userDepartments s)
            (m := swap_pop 0 d (userDepartments s m)) \<rparr>"
    by (auto simp: removeDepartmentMember_def Let_def split: if_splits)
  have sub1: "set (swap_pop 0 m (members (departments s d))) \<subseteq> set (members (departments s d))"
    by (rule swap_pop_subset)
  have sub2: "set (swap_pop 0 d (userDepartments s m)) \<subseteq> set (userDepartments s m)"
    by (rule swap_pop_subset)
  have keep: "admin (departments s d) \<in> set (members (departments s d)) \<Longrightarrow>
      admin (departments s d) \<in> set (swap_pop 0 m (members (departments s d)))"
    using ok(2) by (intro swap_pop_keeps) auto
  show ?thesis
    unfolding s' using assms sub1 sub2 keep ok
    by (auto simp: department_invariant_def)
qed

lemma department_invariant_execute:
  assumes "department_invariant s"
  shows "department_invariant (snd (execute e c s))"
proof (cases "fst (run e c s)")
  case (Inl err)
  then have "snd (execute e c s) = s"
    by (simp add: execute_def transact_snd)
  with assms show ?thesis by simp
next
  case (Inr v)
  then have s': "snd (execute e c s) = snd (run e c s)"
    by (simp add: execute_def transact_snd)
  show ?thesis
    unfolding s'
    by (cases c)
      (simp_all add: returning_fst_snd assms
        department_invariant_createDepartment department_invariant_addDepartmentMember
        department_invariant_removeDepartmentMember
        calculateTotalIncome_def calculateTotalExpense_def
        department_invariant_cong [OF createRecord_department_state]
        department_invariant_cong [OF calculateTotal_department_state]
        department_invariant_cong [OF calculateNetIncome_department_state]
        department_invariant_cong [OF saveCalculation_department_state]
        department_invariant_cong [OF addAuditor_department_state]
        department_invariant_cong [OF removeAuditor_department_state])
qed

lemma reachable_department_invariant: "reachable s \<Longrightarrow> department_invariant s"
  by (induction rule: reachable.induct)
    (simp_all add: department_invariant_constructor department_invariant_execute)

section \<open>Failures and writes\<close>

text \<open>
  A call that fails on one of its checks has written nothing at that point; only the
  panic of a loop index can follow a write.
\<close>

lemma returning_Inl: "returning f out = (Inl err, w) \<longleftrightarrow> out = (Inl err, w)"
  by (cases out; cases "fst out") (auto simp: returning_def)

lemma createDepartment_failure: "createDepartment e nm adm s = (Inl err, w) \<Longrightarrow> w = s"
  by (auto simp: createDepartment_def Let_def split: if_splits)

lemma addDepartmentMember_failure: "addDepartmentMember e d m s = (Inl err, w) \<Longrightarrow> w = s"
  by (auto simp: addDepartmentMember_def Let_def split: if_splits)

lemma removeDepartmentMember_failure: "removeDepartmentMember e d m s = (Inl err, w) \<Longrightarrow> w = s"
  by (auto simp: removeDepartmentMember_def Let_def split: if_splits)

lemma createRecord_failure: "createRecord e rt a pf d pj de s = (Inl err, w) \<Longrightarrow> w = s"
  by (auto simp: createRecord_def Let_def split: if_splits sum.splits)

lemma saveCalculation_failure: "saveCalculation e ct a pf ds prs de s = (Inl err, w) \<Longrightarrow> w = s"
  by (auto simp: saveCalculation_def Let_def split: if_splits sum.splits)

lemma removeAuditor_failure: "removeAuditor e p s = (Inl err, w) \<Longrightarrow> w = s"
  by (auto simp: removeAuditor_def split: if_splits)

lemma calculateTotal_failure: "calculateTotal rt e ds pr s = (Inl err, w) \<Longrightarrow> w = s"
  by (auto simp: calculateTotal_def split: if_splits sum.splits)

lemma addAuditor_failure:
  "addAuditor e p s = (Inl err, w) \<Longrightarrow> err \<noteq> Panic \<Longrightarrow> w = s"
  by (auto simp: addAuditor_def split: if_splits dest: addAuditor_loop_error)

lemma calculateTotal_cases:
  "calculateTotal rt e ds pr s =
     (if \<not> list_all (\<lambda>d. dept_exists (departments s d)) ds then (Inl InvalidDepartment, s)
      else case calculateTotal_loop s rt ds pr 1 (FHE_asEuint128 0) of
        Inl err \<Rightarrow> (Inl Panic, s)
      | Inr tot \<Rightarrow> (Inr tot, FHE_allow tot (msg_sender e) (FHE_allowThis e tot s)))"
  by (auto simp: calculateTotal_def split: sum.splits dest: calculateTotal_loop_error)

lemma calculateNetIncome_failure:
  assumes "calculateNetIncome e ds pr s = (Inl err, w)" and "err \<noteq> Panic"
  shows "w = s"
proof -
  let ?e = "e\<lparr> msg_sender := address_this e \<rparr>"
  obtain r1 s1 where c1: "calculateTotal Income ?e ds pr s = (r1, s1)"
    by (cases "calculateTotal Income ?e ds pr s")
  show ?thesis
  proof (cases r1)
    case (Inl e1)
    with assms c1 show ?thesis
      by (simp add: calculateNetIncome_def calculateTotalIncome_def)
  next
    case (Inr hi)
    with c1 have ok: "list_all (\<lambda>d. dept_exists (departments s d)) ds"
      and s1: "s1 = FHE_allow hi (msg_sender ?e) (FHE_allowThis ?e hi s)"
      by (auto simp: calculateTotal_cases split: if_splits sum.splits)
    have ok1: "list_all (\<lambda>d. dept_exists (departments s1 d)) ds"
      using ok by (simp add: s1 FHE_allow_def FHE_allowThis_def)
    obtain r2 s2 where c2: "calculateTotal Expense ?e ds pr s1 = (r2, s2)"
      by (cases "calculateTotal Expense ?e ds pr s1")
    show ?thesis
    proof (cases r2)
      case (Inl e2)
      with c2 ok1 have "e2 = Panic"
        by (auto simp: calculateTotal_cases split: if_splits sum.splits)
      with assms c1 c2 Inr Inl show ?thesis
        by (simp add: calculateNetIncome_def calculateTotalIncome_def calculateTotalExpense_def)
    next
      case he: (Inr he)
      with assms c1 c2 Inr show ?thesis
        by (simp add: calculateNetIncome_def calculateTotalIncome_def calculateTotalExpense_def
            Let_def)
    qed
  qed
qed

lemma run_failure:
  assumes "run e c s = (Inl err, w)" and "err \<noteq> Panic"
  shows "w = s"
  using assms
  by (cases c)
    (auto simp: returning_Inl calculateTotalIncome_def calculateTotalExpense_def
      dest: createDepartment_failure addDepartmentMember_failure removeDepartmentMember_failure
        createRecord_failure saveCalculation_failure removeAuditor_failure
        calculateTotal_failure addAuditor_failure calculateNetIncome_failure)

section \<open>Invariant of the record store\<close>

text \<open>
  The record store is written by \<open>createRecord\<close> only, and its invariant holds in every
  reachable state.
\<close>

lemma record_invariant_cong:
  "record_state s' = record_state s \<Longrightarrow> record_invariant s' = record_invariant s"
  by (simp add: record_state_def record_invariant_def)

lemma createDepartment_record_state:
  "record_state (snd (createDepartment e nm adm s)) = record_state s"
  by (simp add: createDepartment_def record_state_def Let_def)

lemma addDepartmentMember_record_state:
  "record_state (snd (addDepartmentMember e d m s)) = record_state s"
  by (simp add: addDepartmentMember_def record_state_def Let_def)

lemma removeDepartmentMember_record_state:
  "record_state (snd (removeDepartmentMember e d m s)) = record_state s"
  by (simp add: removeDepartmentMember_def record_state_def Let_def)

lemma calculateTotal_record_state:
  "record_state (snd (calculateTotal rt e ds pr s)) = record_state s"
  by (simp add: calculateTotal_def record_state_def FHE_allow_def FHE_allowThis_def
      split: sum.splits)

lemma calculateNetIncome_record_state:
  "record_state (snd (calculateNetIncome e ds pr s)) = record_state s"
proof -
  let ?e = "e\<lparr> msg_sender := address_this e \<rparr>"
  obtain r1 s1 where c1: "calculateTotal Income ?e ds pr s = (r1, s1)"
    by (cases "calculateTotal Income ?e ds pr s")
  obtain r2 s2 where c2: "calculateTotal Expense ?e ds pr s1 = (r2, s2)"
    by (cases "calculateTotal Expense ?e ds pr s1")
  have d1: "record_state s1 = record_state s"
    using calculateTotal_record_state [of Income ?e ds pr s] c1 by simp
  have d2: "record_state s2 = record_state s"
    using calculateTotal_record_state [of Expense ?e ds pr s1] c2 d1 by simp
  show ?thesis
    using c1 c2 d1 d2
    by (cases r1; cases r2)
      (simp_all add: calculateNetIncome_def calculateTotalIncome_def calculateTotalExpense_def
        Let_def, simp_all add: record_state_def FHE_allow_def FHE_allowThis_def)
qed

lemma saveCalculation_record_state:
  "record_state (snd (saveCalculation e ct a pf ds prs de s)) = record_state s"
  by (simp add: saveCalculation_def record_state_def FHE_allow_def FHE_allowThis_def Let_def
      split: sum.splits)

lemma addAuditor_record_state:
  "record_state (snd (addAuditor e p s)) = record_state s"
proof -
  obtain A where "snd (addAuditor_loop p 1 (s\<lparr> auditors := (auditors s)(p := True) \<rparr>))
      = s\<lparr> auditors := (auditors s)(p := True), acl := A \<rparr>"
    using addAuditor_loop_frame [of p 1 "s\<lparr> auditors := (auditors s)(p := True) \<rparr>"] by auto
  then show ?thesis
    by (simp add: addAuditor_def record_state_def)
qed

lemma removeAuditor_record_state:
  "record_state (snd (removeAuditor e p s)) = record_state s"
  by (simp add: removeAuditor_def record_state_def)

lemma record_invariant_constructor: "record_invariant (constructor e)"
  by (simp add: record_invariant_def constructor_def zero_Record_def)

lemma record_invariant_createRecord:
  assumes "record_invariant s"
  shows "record_invariant (snd (createRecord e rt a pf d pj de s))"
proof (cases "fst (createRecord e rt a pf d pj de s)")
  case (Inl err)
  then have "snd (createRecord e rt a pf d pj de s) = s"
    using createRecord_failure [of e rt a pf d pj de s err]
    by (cases "createRecord e rt a pf d pj de s") simp
  with assms show ?thesis by simp
next
  case (Inr rid)
  then have "createRecord e rt a pf d pj de s = (Inr rid, snd (createRecord e rt a pf d pj de s))"
    by (cases "createRecord e rt a pf d pj de s") simp
  from createRecord_success [OF this]
  have s': "snd (createRecord e rt a pf d pj de s) = s\<lparr> recordCounter := recordCounter s + 1,
              records := (records s)(recordCounter s + 1 :=
                 \<lparr> rec_id = recordCounter s + 1, recordType = rt, amount = Ciphertext a,
                   departmentId = d, projectId = pj, description = de,
                   timestamp = block_timestamp e, creator = msg_sender e, rec_exists = True \<rparr>),
              acl := insert (Ciphertext a, msg_sender e)
                       (insert (Ciphertext a, address_this e) (acl s)) \<rparr>"
    and ne: "recordCounter s \<noteq> max_uint256"
    by blast+
  from assms have le: "recordCounter s \<le> max_uint256"
    and ex: "\<And>j. rec_exists (records s j) \<longleftrightarrow> 1 \<le> j \<and> j \<le> recordCounter s"
    by (simp_all add: record_invariant_def)
  have "recordCounter s + 1 \<le> max_uint256" using le ne by simp
  moreover have "rec_exists (((records s)(recordCounter s + 1 :=
                 \<lparr> rec_id = recordCounter s + 1, recordType = rt, amount = Ciphertext a,
                   departmentId = d, projectId = pj, description = de,
                   timestamp = block_timestamp e, creator = msg_sender e, rec_exists = True \<rparr>)) j)
      \<longleftrightarrow> 1 \<le> j \<and> j \<le> recordCounter s + 1" for j
    using ex [of j] by (cases "j = recordCounter s + 1") auto
  ultimately show ?thesis
    unfolding s' record_invariant_def by simp
qed

lemma record_invariant_execute:
  assumes "record_invariant s"
  shows "record_invariant (snd (execute e c s))"
proof (cases "fst (run e c s)")
  case (Inl err)
  then have "snd (execute e c s) = s"
    by (simp add: execute_def transact_snd)
  with assms show ?thesis by simp
next
  case (Inr v)
  then have s': "snd (execute e c s) = snd (run e c s)"
    by (simp add: execute_def transact_snd)
  show ?thesis
    unfolding s'
    by (cases c)
      (simp_all add: returning_fst_snd assms record_invariant_createRecord
        calculateTotalIncome_def calculateTotalExpense_def
        record_invariant_cong [OF createDepartment_record_state]
        record_invariant_cong [OF addDepartmentMember_record_state]
        record_invariant_cong [OF removeDepartmentMember_record_state]
        record_invariant_cong [OF calculateTotal_record_state]
        record_invariant_cong [OF calculateNetIncome_record_state]
        record_invariant_cong [OF saveCalculation_record_state]
        record_invariant_cong [OF addAuditor_record_state]
        record_invariant_cong [OF removeAuditor_record_state])
qed

lemma reachable_record_invariant: "reachable s \<Longrightarrow> record_invariant s"
  by (induction rule: reachable.induct)
    (simp_all add: record_invariant_constructor record_invariant_execute)

lemma reachable_existing_records:
  assumes "reachable s"
  shows "rec_exists (records s j) \<longleftrightarrow> 1 \<le> j \<and> j \<le> recordCounter s"
  using reachable_record_invariant [OF assms] by (simp add: record_invariant_def)

text \<open>
  At the last \<open>uint256\<close> the loop of \<open>addAuditor\<close> does panic, wherever it starts.
\<close>

lemma addAuditor_loop_panics:
  assumes "recordCounter s = max_uint256" and "i \<le> max_uint256"
  shows "fst (addAuditor_loop p i s) = Inl Panic"
  using assms
proof (induction "max_uint256 - i" arbitrary: i s)
  case 0
  then have i: "i = max_uint256" by simp
  show ?case
    using 0 i by (subst addAuditor_loop.simps) (simp add: Let_def)
next
  case (Suc n)
  then have lt: "i < max_uint256" by simp
  define s' where "s' = (if rec_exists (records s i) then FHE_allow (amount (records s i)) p s else s)"
  have rc: "recordCounter s' = max_uint256"
    using Suc.prems by (simp add: s'_def FHE_allow_def)
  have "n = max_uint256 - (i + 1)" using Suc.hyps(2) by simp
  from Suc.hyps(1) [OF this rc] lt
  have "fst (addAuditor_loop p (i + 1) s') = Inl Panic" by simp
  then show ?case
    using lt Suc.prems unfolding s'_def
    by (subst addAuditor_loop.simps) (simp add: Let_def)
qed

section \<open>Facts about the fixture\<close>

lemma upt_1_3: "[1..<Suc 2] = [1, 2]"
  by (simp add: upt_rec)

lemma upt_1_4: "[1..<Suc 3] = [1, 2, 3]"
  by (simp add: upt_rec)

lemma cross_dept_ledger_counter: "recordCounter cross_dept_ledger = 2"
  by (simp add: fixture_defs op_defs)

lemma cross_dept_ledger_departments:
  "list_all (\<lambda>d. dept_exists (departments cross_dept_ledger d)) [2, 3]"
  by (simp add: fixture_defs op_defs)

lemma cross_dept_ledger_income: "matchingRecordIds cross_dept_ledger Income [2, 3] 0 = [1, 2]"
  apply (simp only: matchingRecordIds_def cross_dept_ledger_counter upt_1_3)
  apply (simp add: fixture_defs op_defs)
  done

lemma cross_dept_ledger_records:
  "recordType (records cross_dept_ledger 1) = Income"
  "departmentId (records cross_dept_ledger 1) = 2"
  "recordType (records cross_dept_ledger 2) = Income"
  "departmentId (records cross_dept_ledger 2) = 3"
  by (simp_all add: fixture_defs op_defs)

lemma cross_dept_ledger_amounts:
  "clearAmount test_key cross_dept_ledger 1 = 1000"
  "clearAmount test_key cross_dept_ledger 2 = 2000"
  by (simp_all add: clearAmount_def test_key_def fixture_defs op_defs)

lemma expense_ledger_counter: "recordCounter expense_ledger = 3"
  by (simp add: fixture_defs op_defs)



lemma expense_ledger_departments:
  "list_all (\<lambda>d. dept_exists (departments expense_ledger d)) [2]"
  by (simp add: fixture_defs op_defs)

lemma expense_ledger_income: "matchingRecordIds expense_ledger Income [2] 0 = [1]"
  apply (simp only: matchingRecordIds_def expense_ledger_counter upt_1_4)
  apply (simp add: fixture_defs op_defs)
  done

lemma expense_ledger_expense: "matchingRecordIds expense_ledger Expense [2] 0 = [3]"
  apply (simp only: matchingRecordIds_def expense_ledger_counter upt_1_4)
  apply (simp add: fixture_defs op_defs)
  done

lemma expense_ledger_amounts:
  "clearAmount key expense_ledger 1 = key 1"
  "clearAmount key expense_ledger 3 = key 3"
  by (simp_all add: clearAmount_def fixture_defs op_defs)

lemma one_record_ledger_counter: "recordCounter one_record_ledger = 1"
  by (simp add: fixture_defs op_defs)

lemma one_record_ledger_facts:
  "systemAdmin one_record_ledger = deployer"
  "\<not> isAuditor charlie one_record_ledger"
  "rec_exists (records one_record_ledger 1)"
  "amount (records one_record_ledger 1) = Ciphertext 1"
  by (simp_all add: fixture_defs op_defs)

lemma audited_ledger_eq:
  "addAuditor (sent_by deployer) charlie one_record_ledger = (Inr (), audited_ledger)"
  by (simp add: fixture_defs op_defs loop_simps)

lemma audited_ledger_facts:
  "isAuditor charlie audited_ledger"
  "(Ciphertext 2, charlie) \<notin> acl audited_ledger"
  "\<exists>s''. createRecord (sent_by alice) Income 2 [2] 2 0 ''Income 2'' audited_ledger = (Inr 2, s'')"
  by (simp_all add: fixture_defs op_defs loop_simps)

lemma reachable_fixture:
  "reachable deployed_ledger" "reachable engineering_ledger" "reachable sales_ledger"
  "reachable one_record_ledger" "reachable cross_dept_ledger" "reachable expense_ledger"
  unfolding expense_ledger_def cross_dept_ledger_def income1_ledger_def one_record_ledger_def
    sales_ledger_def engineering_ledger_def deployed_ledger_def
  by (intro reachable.intros)+

lemma sales_ledger_facts:
  "systemAdmin sales_ledger = deployer"
  "userDepartments sales_ledger deployer = []"
  "dept_exists (departments sales_ledger 1)"
  "dept_exists (departments sales_ledger 2)"
  "admin (departments sales_ledger 1) = deployer"
  "admin (departments sales_ledger 2) = alice"
  "members (departments sales_ledger 1) = []"
  "members (departments sales_ledger 2) = [alice]"
  by (simp_all add: fixture_defs op_defs)

lemma member_ledger_facts:
  "departmentAdmins member_ledger 2 = alice"
  "admin (departments member_ledger 2) = alice"
  "members (departments member_ledger 2) = [alice, bob]"
  "acl member_ledger = {}"
  by (simp_all add: member_ledger_def fixture_defs op_defs)

lemma full_ledger_addAuditor:
  "\<exists>w. run (sent_by deployer) (AddAuditor charlie) full_ledger = (Inl Panic, w)
       \<and> isAuditor charlie w \<and> \<not> isAuditor charlie full_ledger"
proof -
  let ?s1 = "full_ledger\<lparr> auditors := (auditors full_ledger)(charlie := True) \<rparr>"
  have rc: "recordCounter ?s1 = max_uint256"
    by (simp add: full_ledger_def)
  have f: "fst (addAuditor_loop charlie 1 ?s1) = Inl Panic"
    by (rule addAuditor_loop_panics [OF rc]) (simp add: max_uint256_def)
  obtain A where w: "snd (addAuditor_loop charlie 1 ?s1) = ?s1\<lparr> acl := A \<rparr>"
    using addAuditor_loop_frame [of charlie 1 ?s1] by blast
  have pre: "msg_sender (sent_by deployer) = systemAdmin full_ledger" "charlie \<noteq> 0"
    "\<not> auditors full_ledger charlie"
    by (simp_all add: full_ledger_def fixture_defs constructor_def)
  have "addAuditor (sent_by deployer) charlie full_ledger = (Inl Panic, ?s1\<lparr> acl := A \<rparr>)"
    using pre f w
    by (cases "addAuditor_loop charlie 1 ?s1") (simp add: addAuditor_def)
  then have "run (sent_by deployer) (AddAuditor charlie) full_ledger = (Inl Panic, ?s1\<lparr> acl := A \<rparr>)"
    by (simp add: returning_def)
  moreover have "isAuditor charlie (?s1\<lparr> acl := A \<rparr>)"
    by (simp add: isAuditor_def)
  moreover have "\<not> isAuditor charlie full_ledger"
    using pre by (simp add: isAuditor_def)
  ultimately show ?thesis by blast
qed

section \<open>Grants issued by createRecord\<close>

text \<open>
  C1 does not hold of the code. In the fixture alice administers department 2 and bob
  is a member of it. When bob creates a record there, the amount is granted to the
  contract and to bob only: the branch of \<open>createRecord\<close> that tests whether the
  department's administrator is the caller grants the caller again, and no branch grants
  an administrator distinct from the caller. So alice cannot decrypt the amount.
\<close>

theorem createRecord_does_not_grant_admin:
  "admin (departments member_ledger 2) = alice
   \<and> departmentAdmins member_ledger 2 = alice
   \<and> alice \<noteq> bob
   \<and> isDepartmentMember bob 2 member_ledger
   \<and> (\<exists>s'. createRecord (sent_by bob) Income 1 [1] 2 0 ''Income 1'' member_ledger = (Inr 1, s')
          \<and> amount (records s' 1) = Ciphertext 1
          \<and> acl s' = {(Ciphertext 1, bob), (Ciphertext 1, address_this (sent_by bob))}
          \<and> (amount (records s' 1), alice) \<notin> acl s'
          \<and> userDecrypt test_key s' alice (amount (records s' 1)) = Inl NotAuthorized
          \<and> userDecrypt test_key s' bob (amount (records s' 1)) = Inr 1000)"
  by (simp add: member_ledger_def fixture_defs op_defs userDecrypt_def test_key_def)

section \<open>Totals over departments\<close>

text \<open>
  C2. When every id in \<open>departmentIds\<close> names an existing department,
  \<open>calculateTotalIncome departmentIds projId\<close> returns a handle that the caller may
  decrypt and whose clear value is the sum, modulo \<open>2^128\<close>, of the clear amounts of the
  records in \<open>matchingRecordIds\<close>: each existing record, once, whose department is in
  \<open>departmentIds\<close>, whose type is \<open>Income\<close> and whose project passes the filter
  (\<open>projId = 0\<close> or equal projects); in a reachable state these are all the existing
  records that pass the filters. In the fixture, after an income of 1000 in
  department 2 and one of 2000 in department 3, the total over both decrypts to 3000.
  The record counter is assumed below \<open>2^256 - 1\<close>, where the checked increment of the
  loop index panics.
\<close>

theorem calculateTotalIncome_sum:
  "(list_all (\<lambda>d. dept_exists (departments s d)) departmentIds \<and> recordCounter s < max_uint256 \<longrightarrow>
      (\<exists>h s'. calculateTotalIncome e departmentIds projId s = (Inr h, s')
         \<and> cleartext key h
             = sum_list (map (clearAmount key s) (matchingRecordIds s Income departmentIds projId))
         \<and> unat (cleartext key h)
             = sum_list (map (\<lambda>j. unat (clearAmount key s j))
                 (matchingRecordIds s Income departmentIds projId)) mod 2 ^ 128
         \<and> userDecrypt key s' (msg_sender e) h = Inr (cleartext key h)))
   \<and> distinct (matchingRecordIds s Income departmentIds projId)
   \<and> set (matchingRecordIds s Income departmentIds projId) =
        {j. 1 \<le> j \<and> j \<le> recordCounter s \<and> rec_exists (records s j)
            \<and> departmentId (records s j) \<in> set departmentIds
            \<and> (projId = 0 \<or> projectId (records s j) = projId)
            \<and> recordType (records s j) = Income}
   \<and> (reachable s \<longrightarrow> set (matchingRecordIds s Income departmentIds projId) =
        {j. rec_exists (records s j)
            \<and> departmentId (records s j) \<in> set departmentIds
            \<and> (projId = 0 \<or> projectId (records s j) = projId)
            \<and> recordType (records s j) = Income})
   \<and> (\<exists>h s'. calculateTotalIncome (sent_by alice) [2, 3] 0 cross_dept_ledger = (Inr h, s')
         \<and> recordCounter cross_dept_ledger = 2
         \<and> recordType (records cross_dept_ledger 1) = Income
         \<and> departmentId (records cross_dept_ledger 1) = 2
         \<and> clearAmount test_key cross_dept_ledger 1 = 1000
         \<and> recordType (records cross_dept_ledger 2) = Income
         \<and> departmentId (records cross_dept_ledger 2) = 3
         \<and> clearAmount test_key cross_dept_ledger 2 = 2000
         \<and> userDecrypt test_key s' alice h = Inr 3000)"
proof -
  have general: "\<exists>h s'. calculateTotalIncome e departmentIds projId s = (Inr h, s')
         \<and> cleartext key h
             = sum_list (map (clearAmount key s) (matchingRecordIds s Income departmentIds projId))
         \<and> unat (cleartext key h)
             = sum_list (map (\<lambda>j. unat (clearAmount key s j))
                 (matchingRecordIds s Income departmentIds projId)) mod 2 ^ 128
         \<and> userDecrypt key s' (msg_sender e) h = Inr (cleartext key h)"
    if a: "list_all (\<lambda>d. dept_exists (departments s d)) departmentIds"
      and b: "recordCounter s < max_uint256"
    for s e departmentIds projId key
  proof -
    from calculateTotal_result [OF a b, of Income e projId key] obtain h where
      r: "calculateTotalIncome e departmentIds projId s
            = (Inr h, FHE_allow h (msg_sender e) (FHE_allowThis e h s))"
      and c: "cleartext key h
            = sum_list (map (clearAmount key s) (matchingRecordIds s Income departmentIds projId))"
      unfolding calculateTotalIncome_def by blast
    have "unat (cleartext key h)
        = sum_list (map unat (map (clearAmount key s)
            (matchingRecordIds s Income departmentIds projId))) mod 2 ^ 128"
      unfolding c by (rule unat_sum_list_word)
    then have u: "unat (cleartext key h)
        = sum_list (map (\<lambda>j. unat (clearAmount key s j))
            (matchingRecordIds s Income departmentIds projId)) mod 2 ^ 128"
      by (simp add: comp_def)
    have d: "userDecrypt key (FHE_allow h (msg_sender e) (FHE_allowThis e h s)) (msg_sender e) h
        = Inr (cleartext key h)"
      by (simp add: userDecrypt_def FHE_allow_def)
    from r c u d show ?thesis by blast
  qed
  have rc: "recordCounter cross_dept_ledger < max_uint256"
    by (simp add: cross_dept_ledger_counter max_uint256_def)
  from general [OF cross_dept_ledger_departments rc, of "sent_by alice" 0 test_key]
  obtain h s' where
    r: "calculateTotalIncome (sent_by alice) [2, 3] 0 cross_dept_ledger = (Inr h, s')"
    and c: "cleartext test_key h = sum_list (map (clearAmount test_key cross_dept_ledger)
        (matchingRecordIds cross_dept_ledger Income [2, 3] 0))"
    and d: "userDecrypt test_key s' (msg_sender (sent_by alice)) h = Inr (cleartext test_key h)"
    by blast
  have "cleartext test_key h = 3000"
    unfolding c cross_dept_ledger_income using cross_dept_ledger_amounts by simp
  with d have "userDecrypt test_key s' alice h = Inr 3000"
    by (simp add: sent_by_def)
  with r have example: "\<exists>h s'. calculateTotalIncome (sent_by alice) [2, 3] 0 cross_dept_ledger = (Inr h, s')
         \<and> recordCounter cross_dept_ledger = 2
         \<and> recordType (records cross_dept_ledger 1) = Income
         \<and> departmentId (records cross_dept_ledger 1) = 2
         \<and> clearAmount test_key cross_dept_ledger 1 = 1000
         \<and> recordType (records cross_dept_ledger 2) = Income
         \<and> departmentId (records cross_dept_ledger 2) = 3
         \<and> clearAmount test_key cross_dept_ledger 2 = 2000
         \<and> userDecrypt test_key s' alice h = Inr 3000"
    using cross_dept_ledger_amounts cross_dept_ledger_records cross_dept_ledger_counter
    by blast
  have all: "set (matchingRecordIds s Income departmentIds projId) =
        {j. rec_exists (records s j)
            \<and> departmentId (records s j) \<in> set departmentIds
            \<and> (projId = 0 \<or> projectId (records s j) = projId)
            \<and> recordType (records s j) = Income}" if "reachable s"
    unfolding matchingRecordIds_set
    using reachable_existing_records [OF that] by blast
  show ?thesis
    using general [of s departmentIds e projId key] example all
      matchingRecordIds_distinct [of s Income departmentIds projId]
      matchingRecordIds_set [of s Income departmentIds projId]
    by blast
qed

theorem calculateTotalIncome_sum_witness:
  "list_all (\<lambda>d. dept_exists (departments cross_dept_ledger d)) [2, 3]
   \<and> recordCounter cross_dept_ledger < max_uint256
   \<and> reachable cross_dept_ledger
   \<and> matchingRecordIds cross_dept_ledger Income [2, 3] 0 = [1, 2]
   \<and> (\<exists>h s'. calculateTotalIncome (sent_by alice) [2, 3] 0 cross_dept_ledger = (Inr h, s')
          \<and> unat (cleartext test_key h) = 3000)"
proof -
  have rc: "recordCounter cross_dept_ledger < max_uint256"
    by (simp add: cross_dept_ledger_counter max_uint256_def)
  from calculateTotalIncome_sum [of cross_dept_ledger "[2, 3]" "sent_by alice" 0 test_key]
    cross_dept_ledger_departments rc
  obtain h s' where
    r: "calculateTotalIncome (sent_by alice) [2, 3] 0 cross_dept_ledger = (Inr h, s')"
    and u: "unat (cleartext test_key h)
        = sum_list (map (\<lambda>j. unat (clearAmount test_key cross_dept_ledger j))
            (matchingRecordIds cross_dept_ledger Income [2, 3] 0)) mod 2 ^ 128"
    by blast
  have "unat (cleartext test_key h) = 3000"
    unfolding u cross_dept_ledger_income using cross_dept_ledger_amounts by simp
  with r cross_dept_ledger_departments rc cross_dept_ledger_income reachable_fixture(5)
  show ?thesis by blast
qed

section \<open>Net income\<close>

text \<open>
  C3. Under the same conditions \<open>calculateNetIncome\<close> returns a handle that the caller
  may decrypt and whose clear value is the clear value of the total income minus that of
  the total expense over the same filters, as 128-bit words: the difference modulo
  \<open>2^128\<close>. When the expense exceeds the income the result wraps around to
  \<open>2^128 - (expense - income)\<close>; it is neither signed nor saturated, and the call does
  not fail.
\<close>

theorem calculateNetIncome_wrapping_difference:
  assumes "list_all (\<lambda>d. dept_exists (departments s d)) departmentIds"
    and "recordCounter s < max_uint256"
  shows "\<exists>h s' hi si he se.
      calculateNetIncome e departmentIds projId s = (Inr h, s')
    \<and> calculateTotalIncome e departmentIds projId s = (Inr hi, si)
    \<and> calculateTotalExpense e departmentIds projId s = (Inr he, se)
    \<and> cleartext key hi
        = sum_list (map (clearAmount key s) (matchingRecordIds s Income departmentIds projId))
    \<and> cleartext key he
        = sum_list (map (clearAmount key s) (matchingRecordIds s Expense departmentIds projId))
    \<and> cleartext key h = cleartext key hi - cleartext key he
    \<and> unat (cleartext key h)
        = (unat (cleartext key hi) + 2 ^ 128 - unat (cleartext key he)) mod 2 ^ 128
    \<and> (unat (cleartext key he) \<le> unat (cleartext key hi) \<longrightarrow>
          unat (cleartext key h) = unat (cleartext key hi) - unat (cleartext key he))
    \<and> (unat (cleartext key hi) < unat (cleartext key he) \<longrightarrow>
          unat (cleartext key h)
            = 2 ^ 128 - (unat (cleartext key he) - unat (cleartext key hi)))
    \<and> userDecrypt key s' (msg_sender e) h = Inr (cleartext key h)"
proof -
  from calculateNetIncome_result [OF assms, of e projId key] obtain h s' where
    r: "calculateNetIncome e departmentIds projId s = (Inr h, s')"
    and g: "(h, msg_sender e) \<in> acl s'"
    and c: "cleartext key h
         = sum_list (map (clearAmount key s) (matchingRecordIds s Income departmentIds projId))
         - sum_list (map (clearAmount key s) (matchingRecordIds s Expense departmentIds projId))"
    by blast
  from calculateTotal_result [OF assms, of Income e projId key] obtain hi si where
    ri: "calculateTotalIncome e departmentIds projId s = (Inr hi, si)"
    and ci: "cleartext key hi
          = sum_list (map (clearAmount key s) (matchingRecordIds s Income departmentIds projId))"
    unfolding calculateTotalIncome_def by blast
  from calculateTotal_result [OF assms, of Expense e projId key] obtain he se where
    re: "calculateTotalExpense e departmentIds projId s = (Inr he, se)"
    and ce: "cleartext key he
          = sum_list (map (clearAmount key s) (matchingRecordIds s Expense departmentIds projId))"
    unfolding calculateTotalExpense_def by blast
  have d: "cleartext key h = cleartext key hi - cleartext key he"
    by (simp only: c ci ce)
  have lb: "unat (cleartext key he) < 2 ^ 128"
    using unsigned_less [of "cleartext key he", where 'a = nat] by simp
  have u: "unat (cleartext key h)
        = (unat (cleartext key hi) + 2 ^ 128 - unat (cleartext key he)) mod 2 ^ 128"
    unfolding d by (rule unat_sub_wrap)
  have le: "unat (cleartext key h) = unat (cleartext key hi) - unat (cleartext key he)"
    if "unat (cleartext key he) \<le> unat (cleartext key hi)"
    unfolding d using that by (simp add: unat_sub_if')
  have gt: "unat (cleartext key h) = 2 ^ 128 - (unat (cleartext key he) - unat (cleartext key hi))"
    if "unat (cleartext key hi) < unat (cleartext key he)"
    unfolding d using that lb by (simp add: unat_sub_if')
  have dec: "userDecrypt key s' (msg_sender e) h = Inr (cleartext key h)"
    using g by (simp add: userDecrypt_def)
  from r ri re ci ce d u le gt dec show ?thesis by blast
qed

theorem calculateNetIncome_wrapping_difference_witness:
  "list_all (\<lambda>d. dept_exists (departments expense_ledger d)) [2]
   \<and> recordCounter expense_ledger < max_uint256
   \<and> (\<exists>h s'. calculateNetIncome (sent_by alice) [2] 0 expense_ledger = (Inr h, s')
          \<and> unat (cleartext test_key h) = 500
          \<and> unat (cleartext deficit_key h) = 2 ^ 128 - 1)"
proof -
  have rc: "recordCounter expense_ledger < max_uint256"
    by (simp add: expense_ledger_counter max_uint256_def)
  have sums:
    "sum_list (map (clearAmount key expense_ledger) (matchingRecordIds expense_ledger Income [2] 0))
       = key 1"
    "sum_list (map (clearAmount key expense_ledger) (matchingRecordIds expense_ledger Expense [2] 0))
       = key 3" for key
    unfolding expense_ledger_income expense_ledger_expense
    using expense_ledger_amounts [of key] by simp_all
  from calculateNetIncome_wrapping_difference [OF expense_ledger_departments rc,
      of "sent_by alice" 0 test_key]
  obtain h s' hi he where
    r: "calculateNetIncome (sent_by alice) [2] 0 expense_ledger = (Inr h, s')"
    and t1: "cleartext test_key hi = test_key 1" "cleartext test_key he = test_key 3"
      "unat (cleartext test_key he) \<le> unat (cleartext test_key hi) \<longrightarrow>
          unat (cleartext test_key h) = unat (cleartext test_key hi) - unat (cleartext test_key he)"
    unfolding sums by blast
  from calculateNetIncome_wrapping_difference [OF expense_ledger_departments rc,
      of "sent_by alice" 0 deficit_key]
  obtain h' s'' hi' he' where
    r': "calculateNetIncome (sent_by alice) [2] 0 expense_ledger = (Inr h', s'')"
    and t2: "cleartext deficit_key hi' = deficit_key 1" "cleartext deficit_key he' = deficit_key 3"
      "unat (cleartext deficit_key hi') < unat (cleartext deficit_key he') \<longrightarrow>
          unat (cleartext deficit_key h')
            = 2 ^ 128 - (unat (cleartext deficit_key he') - unat (cleartext deficit_key hi'))"
    unfolding sums by blast
  have same: "h' = h" using r r' by simp
  have "unat (cleartext test_key h) = 500"
    using t1 by (simp add: test_key_def)
  moreover have "unat (cleartext deficit_key h) = 2 ^ 128 - 1"
    using t2 unfolding same by (simp add: deficit_key_def)
  ultimately show ?thesis
    using r rc expense_ledger_departments by blast
qed

section \<open>Adding an auditor\<close>

text \<open>
  C4. With the record counter below \<open>2^256 - 1\<close> (where the checked increment of the
  loop index panics), \<open>addAuditor p\<close> succeeds if and only if the caller is the system
  administrator, \<open>p\<close> is not the null address and \<open>p\<close> is not an auditor yet. On
  success \<open>p\<close> is an auditor and may decrypt the amount of every record that exists at
  that moment (the records with an id from 1 to the record counter, which in a reachable
  state are all existing records); the records themselves and earlier grants stay. A
  record created later, in any state, is granted to the contract and to its creator only:
  an auditor who is neither, and who held no grant on that handle, cannot decrypt its
  amount.
\<close>

theorem addAuditor_grants_existing_records:
  "(recordCounter s < max_uint256 \<longrightarrow>
      ((\<exists>s'. addAuditor e p s = (Inr (), s'))
         \<longleftrightarrow> (msg_sender e = systemAdmin s \<and> p \<noteq> 0 \<and> \<not> isAuditor p s))
    \<and> (\<forall>s'. addAuditor e p s = (Inr (), s') \<longrightarrow>
          isAuditor p s'
        \<and> (\<forall>j. 1 \<le> j \<and> j \<le> recordCounter s \<and> rec_exists (records s j) \<longrightarrow>
               (amount (records s j), p) \<in> acl s'
             \<and> userDecrypt key s' p (amount (records s j)) = Inr (clearAmount key s j))
        \<and> (reachable s \<longrightarrow>
             (\<forall>j. rec_exists (records s j) \<longrightarrow> (amount (records s j), p) \<in> acl s'))
        \<and> acl s \<subseteq> acl s'
        \<and> records s' = records s \<and> recordCounter s' = recordCounter s))
   \<and> (\<forall>c rt a pf d pj de rid s''.
         createRecord c rt a pf d pj de s = (Inr rid, s'') \<longrightarrow>
           rec_exists (records s'' rid)
         \<and> acl s'' = insert (amount (records s'' rid), msg_sender c)
                        (insert (amount (records s'' rid), address_this c) (acl s))
         \<and> (isAuditor p s \<and> p \<noteq> msg_sender c \<and> p \<noteq> address_this c
              \<and> (amount (records s'' rid), p) \<notin> acl s \<longrightarrow>
                (amount (records s'' rid), p) \<notin> acl s''
              \<and> userDecrypt key s'' p (amount (records s'' rid)) = Inl NotAuthorized))"
proof -
  have part1: "(\<exists>s'. addAuditor e p s = (Inr (), s'))
         \<longleftrightarrow> (msg_sender e = systemAdmin s \<and> p \<noteq> 0 \<and> \<not> isAuditor p s)"
    if lt: "recordCounter s < max_uint256"
    by (simp add: addAuditor_result [OF lt] isAuditor_def)
  have part2: "isAuditor p s'
        \<and> (\<forall>j. 1 \<le> j \<and> j \<le> recordCounter s \<and> rec_exists (records s j) \<longrightarrow>
               (amount (records s j), p) \<in> acl s'
             \<and> userDecrypt key s' p (amount (records s j)) = Inr (clearAmount key s j))
        \<and> (reachable s \<longrightarrow>
             (\<forall>j. rec_exists (records s j) \<longrightarrow> (amount (records s j), p) \<in> acl s'))
        \<and> acl s \<subseteq> acl s'
        \<and> records s' = records s \<and> recordCounter s' = recordCounter s"
    if lt: "recordCounter s < max_uint256" and ok: "addAuditor e p s = (Inr (), s')" for s'
  proof -
    from ok have s': "s' = s\<lparr> auditors := (auditors s)(p := True),
                         acl := acl s \<union> {(amount (records s j), p) | j.
                            1 \<le> j \<and> j \<le> recordCounter s \<and> rec_exists (records s j)} \<rparr>"
      unfolding addAuditor_result [OF lt] by (simp split: if_splits)
    have g: "(amount (records s j), p) \<in> acl s'"
      if "1 \<le> j \<and> j \<le> recordCounter s \<and> rec_exists (records s j)" for j
      unfolding s' using that by auto
    have "userDecrypt key s' p (amount (records s j)) = Inr (clearAmount key s j)"
      if "1 \<le> j \<and> j \<le> recordCounter s \<and> rec_exists (records s j)" for j
      using g [OF that] by (simp add: userDecrypt_def clearAmount_def)
    moreover have "(amount (records s j), p) \<in> acl s'"
      if "reachable s" "rec_exists (records s j)" for j
      using g [of j] reachable_existing_records [OF that(1), of j] that(2) by simp
    moreover have "isAuditor p s'" by (simp add: s' isAuditor_def)
    moreover have "acl s \<subseteq> acl s'" by (auto simp: s')
    moreover have "records s' = records s" by (simp add: s')
    moreover have "recordCounter s' = recordCounter s" by (simp add: s')
    ultimately show ?thesis using g by blast
  qed
  have part3: "rec_exists (records s'' rid)
         \<and> acl s'' = insert (amount (records s'' rid), msg_sender c)
                        (insert (amount (records s'' rid), address_this c) (acl s))
         \<and> (isAuditor p s \<and> p \<noteq> msg_sender c \<and> p \<noteq> address_this c
              \<and> (amount (records s'' rid), p) \<notin> acl s \<longrightarrow>
                (amount (records s'' rid), p) \<notin> acl s''
              \<and> userDecrypt key s'' p (amount (records s'' rid)) = Inl NotAuthorized)"
    if ok: "createRecord c rt a pf d pj de s = (Inr rid, s'')" for c rt a pf d pj de rid s''
  proof -
    note r = createRecord_success [OF ok]
    from r have rid: "rid = recordCounter s + 1" by blast
    from r have s'': "s'' = s\<lparr> recordCounter := recordCounter s + 1,
              records := (records s)(recordCounter s + 1 :=
                 \<lparr> rec_id = recordCounter s + 1, recordType = rt, amount = Ciphertext a,
                   departmentId = d, projectId = pj, description = de,
                   timestamp = block_timestamp c, creator = msg_sender c, rec_exists = True \<rparr>),
              acl := insert (Ciphertext a, msg_sender c)
                       (insert (Ciphertext a, address_this c) (acl s)) \<rparr>" by blast
    have am: "amount (records s'' rid) = Ciphertext a"
      by (simp add: s'' rid)
    have ex: "rec_exists (records s'' rid)"
      by (simp add: s'' rid)
    have ac: "acl s'' = insert (Ciphertext a, msg_sender c)
                        (insert (Ciphertext a, address_this c) (acl s))"
      by (simp add: s'')
    have n: "(Ciphertext a, p) \<notin> acl s''
        \<and> userDecrypt key s'' p (Ciphertext a) = Inl NotAuthorized"
      if "isAuditor p s \<and> p \<noteq> msg_sender c \<and> p \<noteq> address_this c
              \<and> (Ciphertext a, p) \<notin> acl s"
      using that by (simp add: ac userDecrypt_def)
    show ?thesis unfolding am using ex ac n by blast
  qed
  show ?thesis using part1 part2 part3 by blast
qed

theorem addAuditor_grants_existing_records_witness:
  "recordCounter one_record_ledger < max_uint256
   \<and> reachable one_record_ledger
   \<and> msg_sender (sent_by deployer) = systemAdmin one_record_ledger
   \<and> charlie \<noteq> 0 \<and> \<not> isAuditor charlie one_record_ledger
   \<and> (\<exists>s'. addAuditor (sent_by deployer) charlie one_record_ledger = (Inr (), s')
          \<and> isAuditor charlie s'
          \<and> rec_exists (records one_record_ledger 1)
          \<and> userDecrypt test_key s' charlie (amount (records one_record_ledger 1)) = Inr 1000
          \<and> (\<exists>rid s''. createRecord (sent_by alice) Income 2 [2] 2 0 ''Income 2'' s' = (Inr rid, s'')
                \<and> rid = 2
                \<and> userDecrypt test_key s'' charlie (amount (records s'' rid)) = Inl NotAuthorized))
   \<and> (\<nexists>s'. addAuditor (sent_by alice) charlie one_record_ledger = (Inr (), s'))"
proof -
  have lt: "recordCounter one_record_ledger < max_uint256"
    by (simp add: one_record_ledger_counter max_uint256_def)
  have pre: "msg_sender (sent_by deployer) = systemAdmin one_record_ledger" "charlie \<noteq> 0"
    "msg_sender (sent_by alice) \<noteq> systemAdmin one_record_ledger"
    by (simp_all add: one_record_ledger_facts sent_by_def charlie_def alice_def deployer_def)
  note t1 = addAuditor_grants_existing_records
    [of one_record_ledger "sent_by deployer" charlie test_key]
  note t2 = addAuditor_grants_existing_records
    [of one_record_ledger "sent_by alice" charlie test_key]
  note t3 = addAuditor_grants_existing_records
    [of audited_ledger "sent_by deployer" charlie test_key]
  from t1 lt audited_ledger_eq
  have "\<forall>j. 1 \<le> j \<and> j \<le> recordCounter one_record_ledger
           \<and> rec_exists (records one_record_ledger j) \<longrightarrow>
         userDecrypt test_key audited_ledger charlie (amount (records one_record_ledger j))
           = Inr (clearAmount test_key one_record_ledger j)"
    by blast
  then have "(1::nat) \<le> 1 \<and> 1 \<le> recordCounter one_record_ledger
           \<and> rec_exists (records one_record_ledger 1) \<longrightarrow>
         userDecrypt test_key audited_ledger charlie (amount (records one_record_ledger 1))
           = Inr (clearAmount test_key one_record_ledger 1)"
    by (rule spec)
  then have dec: "userDecrypt test_key audited_ledger charlie (amount (records one_record_ledger 1))
      = Inr (clearAmount test_key one_record_ledger 1)"
    using one_record_ledger_facts(3) by (simp add: one_record_ledger_counter)
  have ca: "clearAmount test_key one_record_ledger 1 = 1000"
    using one_record_ledger_facts(4) by (simp add: clearAmount_def test_key_def)
  from audited_ledger_facts(3) obtain s'' where
    cr: "createRecord (sent_by alice) Income 2 [2] 2 0 ''Income 2'' audited_ledger = (Inr 2, s'')"
    by blast
  have ne: "charlie \<noteq> msg_sender (sent_by alice)" "charlie \<noteq> address_this (sent_by alice)"
    by (simp_all add: sent_by_def charlie_def alice_def)
  have am: "amount (records s'' 2) = Ciphertext 2"
    using createRecord_success [OF cr] by simp
  from t3 cr have "isAuditor charlie audited_ledger \<and> charlie \<noteq> msg_sender (sent_by alice)
       \<and> charlie \<noteq> address_this (sent_by alice)
       \<and> (amount (records s'' 2), charlie) \<notin> acl audited_ledger \<longrightarrow>
      userDecrypt test_key s'' charlie (amount (records s'' 2)) = Inl NotAuthorized"
    by blast
  with audited_ledger_facts ne am
  have na: "userDecrypt test_key s'' charlie (amount (records s'' 2)) = Inl NotAuthorized"
    by simp
  from t2 lt pre have fail: "\<nexists>s'. addAuditor (sent_by alice) charlie one_record_ledger = (Inr (), s')"
    by blast
  show ?thesis
    using lt pre one_record_ledger_facts audited_ledger_eq audited_ledger_facts(1) dec ca cr na fail
      reachable_fixture(4)
    by auto
qed

section \<open>Removing an auditor\<close>

text \<open>
  C5. When \<open>p\<close> is an auditor and the system administrator calls \<open>removeAuditor p\<close>, the
  call succeeds and the storage afterwards is the storage before with the auditor flag of
  \<open>p\<close> cleared and nothing else changed: the grants are the same (so every principal,
  \<open>p\<close> included, decrypts exactly what it could before), and so are the records, the
  departments, the calculations, the reverse index, the administrators, the counters and
  the auditor flag of every other principal.
\<close>

theorem removeAuditor_clears_flag_only:
  assumes "isAuditor p s" and "msg_sender e = systemAdmin s"
  shows "\<exists>s'. removeAuditor e p s = (Inr (), s')
           \<and> execute e (RemoveAuditor p) s = (Inr RetUnit, s')
           \<and> s' = s\<lparr> auditors := (auditors s)(p := False) \<rparr>
           \<and> \<not> isAuditor p s'
           \<and> (\<forall>q. q \<noteq> p \<longrightarrow> isAuditor q s' = isAuditor q s)
           \<and> acl s' = acl s
           \<and> (\<forall>key q h. userDecrypt key s' q h = userDecrypt key s q h)
           \<and> records s' = records s \<and> departments s' = departments s
           \<and> calculations s' = calculations s
           \<and> userDepartments s' = userDepartments s
           \<and> departmentAdmins s' = departmentAdmins s
           \<and> systemAdmin s' = systemAdmin s
           \<and> recordCounter s' = recordCounter s
           \<and> departmentCounter s' = departmentCounter s
           \<and> calculationCounter s' = calculationCounter s"
  using assms
  by (simp add: removeAuditor_def isAuditor_def execute_def transact_def returning_def
      userDecrypt_def)

theorem removeAuditor_clears_flag_only_witness:
  "isAuditor charlie audited_ledger
   \<and> msg_sender (sent_by deployer) = systemAdmin audited_ledger
   \<and> (Ciphertext 1, charlie) \<in> acl audited_ledger
   \<and> (\<exists>s'. removeAuditor (sent_by deployer) charlie audited_ledger = (Inr (), s')
          \<and> \<not> isAuditor charlie s'
          \<and> (Ciphertext 1, charlie) \<in> acl s')"
proof -
  have a: "isAuditor charlie audited_ledger"
    by (simp add: fixture_defs op_defs loop_simps)
  have b: "msg_sender (sent_by deployer) = systemAdmin audited_ledger"
    by (simp add: fixture_defs op_defs loop_simps)
  have c: "(Ciphertext 1, charlie) \<in> acl audited_ledger"
    by (simp add: fixture_defs op_defs loop_simps)
  from removeAuditor_clears_flag_only [OF a b] obtain s' where
    "removeAuditor (sent_by deployer) charlie audited_ledger = (Inr (), s')"
    "\<not> isAuditor charlie s'" "acl s' = acl audited_ledger"
    by blast
  with a b c show ?thesis by auto
qed

section \<open>Pagination of a department's records\<close>




section \<open>The department administrator cannot be removed\<close>

text \<open>
  C7. For an existing department and any caller, \<open>removeDepartmentMember\<close> applied to the
  department's administrator fails: with ``only department admin'' when the caller is not
  the administrator registered for the department, and with ``cannot remove admin''
  otherwise. The failed call has written nothing, so the member list of the department
  and the reverse index of the administrator are as before.
\<close>

theorem removeDepartmentMember_admin_fails:
  assumes "dept_exists (departments s d)"
  shows "\<exists>err. removeDepartmentMember e d (admin (departments s d)) s = (Inl err, s)
           \<and> execute e (RemoveDepartmentMember d (admin (departments s d))) s = (Inl err, s)
           \<and> err = (if departmentAdmins s d \<noteq> msg_sender e then OnlyDepartmentAdmin
                     else CannotRemoveAdmin)
           \<and> members (departments (snd (execute e (RemoveDepartmentMember d (admin (departments s d))) s)) d)
               = members (departments s d)
           \<and> getUserDepartments (admin (departments s d))
                 (snd (execute e (RemoveDepartmentMember d (admin (departments s d))) s))
               = getUserDepartments (admin (departments s d)) s"
  using assms
  by (simp add: removeDepartmentMember_def isDepartmentMember_def execute_def transact_def
      returning_def)

theorem removeDepartmentMember_admin_fails_witness:
  "dept_exists (departments engineering_ledger 2)
   \<and> admin (departments engineering_ledger 2) = alice
   \<and> removeDepartmentMember (sent_by alice) 2 alice engineering_ledger
       = (Inl CannotRemoveAdmin, engineering_ledger)
   \<and> removeDepartmentMember (sent_by deployer) 2 alice engineering_ledger
       = (Inl OnlyDepartmentAdmin, engineering_ledger)"
proof -
  have a: "dept_exists (departments engineering_ledger 2)"
    by (simp add: fixture_defs op_defs)
  have b: "admin (departments engineering_ledger 2) = alice"
    by (simp add: fixture_defs op_defs)
  have c: "departmentAdmins engineering_ledger 2 = alice"
    by (simp add: fixture_defs op_defs)
  from removeDepartmentMember_admin_fails [OF a, of "sent_by alice"]
    removeDepartmentMember_admin_fails [OF a, of "sent_by deployer"]
  show ?thesis
    using a b c by (auto simp: sent_by_def alice_def deployer_def)
qed

section \<open>The administrator as a member of its department\<close>

text \<open>
  C8, as stated, fails: right after deployment the System department exists and its
  member list is empty, so its administrator is not an element of it.
\<close>

theorem system_department_admin_not_in_members:
  "reachable deployed_ledger
   \<and> dept_exists (departments deployed_ledger 1)
   \<and> admin (departments deployed_ledger 1) \<notin> set (members (departments deployed_ledger 1))"
  using reachable_fixture(1) by (simp add: fixture_defs op_defs)

text \<open>
  C8, amended. In every reachable state the administrator of every existing department
  satisfies the membership predicate. For a department other than the System department
  the administrator is an element of the member list: \<open>createDepartment\<close> makes it the
  sole initial member, and no call removes it. The System department (id 1) is created
  with an empty member list, which never contains its administrator.
\<close>

theorem department_admin_is_member:
  assumes "reachable s" and "dept_exists (departments s d)"
  shows "isDepartmentMember (admin (departments s d)) d s
       \<and> (d \<noteq> 1 \<longrightarrow> admin (departments s d) \<in> set (members (departments s d)))
       \<and> (d = 1 \<longrightarrow> admin (departments s d) \<notin> set (members (departments s d)))
       \<and> (\<forall>e. members (departments (constructor e) 1) = [])
       \<and> (\<forall>e nm adm newId s'. createDepartment e nm adm s = (Inr newId, s') \<longrightarrow>
             dept_exists (departments s' newId) \<and> admin (departments s' newId) = adm
           \<and> members (departments s' newId) = [adm])"
proof -
  from reachable_department_invariant [OF assms(1)]
  have i: "admin (departments s 1) = systemAdmin s"
    "systemAdmin s \<notin> set (members (departments s 1))"
    "\<forall>d. dept_exists (departments s d) \<and> d \<noteq> 1 \<longrightarrow>
          admin (departments s d) \<in> set (members (departments s d))"
    by (simp_all add: department_invariant_def)
  have a: "isDepartmentMember (admin (departments s d)) d s"
    using assms(2) by (simp add: isDepartmentMember_def)
  have b: "d \<noteq> 1 \<longrightarrow> admin (departments s d) \<in> set (members (departments s d))"
    using i(3) assms(2) by blast
  have c: "d = 1 \<longrightarrow> admin (departments s d) \<notin> set (members (departments s d))"
    using i(1,2) by simp
  have d: "members (departments (constructor e) 1) = []" for e
    by (simp add: constructor_def)
  have e: "dept_exists (departments s' newId) \<and> admin (departments s' newId) = adm
           \<and> members (departments s' newId) = [adm]"
    if "createDepartment e nm adm s = (Inr newId, s')" for e nm adm newId s'
    using that by (auto simp: createDepartment_def Let_def split: if_splits)
  from a b c d e show ?thesis by blast
qed

theorem department_admin_is_member_witness:
  "reachable sales_ledger
   \<and> dept_exists (departments sales_ledger 2) \<and> dept_exists (departments sales_ledger 1)
   \<and> admin (departments sales_ledger 2) = alice
   \<and> alice \<in> set (members (departments sales_ledger 2))
   \<and> isDepartmentMember deployer 1 sales_ledger
   \<and> deployer \<notin> set (members (departments sales_ledger 1))
   \<and> (\<exists>s'. createDepartment (sent_by deployer) ''Sales'' bob engineering_ledger = (Inr 3, s')
          \<and> members (departments s' 3) = [bob])"
proof -
  note t2 = department_admin_is_member [OF reachable_fixture(3) sales_ledger_facts(4)]
  note t1 = department_admin_is_member [OF reachable_fixture(3) sales_ledger_facts(3)]
  have cr: "\<exists>s'. createDepartment (sent_by deployer) ''Sales'' bob engineering_ledger = (Inr 3, s')"
    by (simp add: fixture_defs op_defs)
  then obtain s' where s': "createDepartment (sent_by deployer) ''Sales'' bob engineering_ledger = (Inr 3, s')"
    by blast
  from department_admin_is_member [OF reachable_fixture(2), of 1] s'
  have "dept_exists (departments engineering_ledger 1) \<longrightarrow> members (departments s' 3) = [bob]"
    by blast
  moreover have "dept_exists (departments engineering_ledger 1)"
    by (simp add: fixture_defs op_defs)
  ultimately have m: "members (departments s' 3) = [bob]" by simp
  from t1 t2 have "alice \<in> set (members (departments sales_ledger 2))"
    "isDepartmentMember deployer 1 sales_ledger"
    "deployer \<notin> set (members (departments sales_ledger 1))"
    using sales_ledger_facts by simp_all
  with s' m reachable_fixture(3) sales_ledger_facts show ?thesis by blast
qed

section \<open>Atomicity of calls\<close>

text \<open>
  C9. Every state-changing call either completes, and then the storage after the call is
  the storage the call has written in full, or fails, and then the storage after the call
  is the storage before it: counters, mappings and grants alike. Moreover a call that
  fails on one of its own checks (any failure other than the arithmetic panic) has not
  written anything when it fails, so nothing has to be undone. The panic of a loop index
  can follow a write (the witness shows \<open>addAuditor\<close> at the last \<open>uint256\<close>); that write
  is discarded with the failed call.
\<close>

theorem calls_are_atomic:
  "((\<exists>v s'. run e c s = (Inr v, s') \<and> execute e c s = (Inr v, s'))
      \<or> (\<exists>err w. run e c s = (Inl err, w) \<and> execute e c s = (Inl err, s)))
   \<and> (\<forall>err w. run e c s = (Inl err, w) \<and> err \<noteq> Panic \<longrightarrow> w = s)"
proof -
  obtain r w where rw: "run e c s = (r, w)" by (cases "run e c s")
  have "(\<exists>v s'. run e c s = (Inr v, s') \<and> execute e c s = (Inr v, s'))
      \<or> (\<exists>err w. run e c s = (Inl err, w) \<and> execute e c s = (Inl err, s))"
    by (cases r) (simp_all add: rw execute_def transact_def)
  moreover have "\<forall>err w. run e c s = (Inl err, w) \<and> err \<noteq> Panic \<longrightarrow> w = s"
    using run_failure by blast
  ultimately show ?thesis by blast
qed

theorem calls_are_atomic_witness:
  "run (sent_by alice) (CreateDepartment ''Sales'' bob) engineering_ledger
     = (Inl OnlySystemAdmin, engineering_ledger)
   \<and> OnlySystemAdmin \<noteq> Panic
   \<and> execute (sent_by alice) (CreateDepartment ''Sales'' bob) engineering_ledger
     = (Inl OnlySystemAdmin, engineering_ledger)
   \<and> execute (sent_by deployer) (CreateDepartment ''Sales'' bob) engineering_ledger
     = (Inr (RetId 3), sales_ledger)
   \<and> (\<exists>w. run (sent_by deployer) (AddAuditor charlie) full_ledger = (Inl Panic, w)
          \<and> isAuditor charlie w)
   \<and> \<not> isAuditor charlie full_ledger
   \<and> execute (sent_by deployer) (AddAuditor charlie) full_ledger = (Inl Panic, full_ledger)"
proof -
  from full_ledger_addAuditor obtain w' where
    p: "run (sent_by deployer) (AddAuditor charlie) full_ledger = (Inl Panic, w')"
    "isAuditor charlie w'" "\<not> isAuditor charlie full_ledger"
    by blast
  from calls_are_atomic [of "sent_by deployer" "AddAuditor charlie" full_ledger] p(1)
  have x: "execute (sent_by deployer) (AddAuditor charlie) full_ledger = (Inl Panic, full_ledger)"
    by auto
  have f: "fst (run (sent_by alice) (CreateDepartment ''Sales'' bob) engineering_ledger)
      = Inl OnlySystemAdmin"
    by (simp add: fixture_defs op_defs)
  then obtain w where r: "run (sent_by alice) (CreateDepartment ''Sales'' bob) engineering_ledger
      = (Inl OnlySystemAdmin, w)"
    by (cases "run (sent_by alice) (CreateDepartment ''Sales'' bob) engineering_ledger") simp
  from calls_are_atomic [of "sent_by alice" "CreateDepartment ''Sales'' bob" engineering_ledger] r
  have w: "w = engineering_ledger" by blast
  have ok: "fst (execute (sent_by deployer) (CreateDepartment ''Sales'' bob) engineering_ledger)
      = Inr (RetId 3)"
    by (simp add: fixture_defs op_defs)
  have "execute (sent_by deployer) (CreateDepartment ''Sales'' bob) engineering_ledger
     = (Inr (RetId 3), sales_ledger)"
    using ok unfolding sales_ledger_def
    by (cases "execute (sent_by deployer) (CreateDepartment ''Sales'' bob) engineering_ledger") simp
  with r w p x show ?thesis
    by (auto simp: execute_def transact_def)
qed

section \<open>The System department and the reverse index\<close>

text \<open>
  C10. In every reachable state the reverse index of the system administrator does not
  contain the id 1 of the System department, although the system administrator is a
  member of that department by the membership predicate. The constructor leaves every
  reverse index empty, and \<open>addDepartmentMember\<close> for department 1 and the system
  administrator always fails, so no call can add the id.
\<close>

theorem system_department_missing_from_reverse_index:
  assumes "reachable s"
  shows "1 \<notin> set (getUserDepartments (systemAdmin s) s)
       \<and> isDepartmentMember (systemAdmin s) 1 s
       \<and> (\<forall>e a. getUserDepartments a (constructor e) = [])
       \<and> (\<forall>e. addDepartmentMember e 1 (systemAdmin s) s =
              (Inl (if departmentAdmins s 1 \<noteq> msg_sender e then OnlyDepartmentAdmin
                    else if systemAdmin s = 0 then InvalidMember
                    else AlreadyMember), s))"
proof -
  from reachable_department_invariant [OF assms]
  have i: "dept_exists (departments s 1)" "admin (departments s 1) = systemAdmin s"
    "1 \<notin> set (userDepartments s (systemAdmin s))"
    by (simp_all add: department_invariant_def)
  have m: "isDepartmentMember (systemAdmin s) 1 s"
    using i by (simp add: isDepartmentMember_def)
  have "addDepartmentMember e 1 (systemAdmin s) s =
              (Inl (if departmentAdmins s 1 \<noteq> msg_sender e then OnlyDepartmentAdmin
                    else if systemAdmin s = 0 then InvalidMember
                    else AlreadyMember), s)" for e
    using m i by (simp add: addDepartmentMember_def)
  moreover have "getUserDepartments a (constructor e) = []" for e a
    by (simp add: getUserDepartments_def constructor_def)
  ultimately show ?thesis
    using i m by (simp add: getUserDepartments_def)
qed

theorem system_department_missing_from_reverse_index_witness:
  "reachable sales_ledger
   \<and> systemAdmin sales_ledger = deployer
   \<and> getUserDepartments deployer sales_ledger = []
   \<and> 1 \<notin> set (getUserDepartments deployer sales_ledger)
   \<and> isDepartmentMember deployer 1 sales_ledger"
  using system_department_missing_from_reverse_index [OF reachable_fixture(3)]
    reachable_fixture(3) sales_ledger_facts
  by (simp add: getUserDepartments_def)

end
